theory Spec2Isabelle
  imports Main
begin

section \<open>Python runtime pieces used by the three lambdas\<close>

text \<open>
  Exceptions are values. Every handler of the repository that matters here is
  \<^verbatim>\<open>except Exception\<close>, which catches all of the constructors below.
\<close>

datatype error =
    TypeError
  | IndexError
  | KeyError
  | NameError
  | ValueError
  | JSONDecodeError
  | RequestException
  | ClientError string
  | PyException string

text \<open>
  \<^verbatim>\<open>range(start, stop, step)\<close>: a zero step raises ValueError, a positive step counts up
  while below \<open>stop\<close>, a negative step counts down while above \<open>stop\<close>.
\<close>

function range_up :: "int \<Rightarrow> int \<Rightarrow> int \<Rightarrow> int list" where
  "range_up i stop step =
     (if 0 < step \<and> i < stop then i # range_up (i + step) stop step else [])"
  by pat_completeness auto
termination
  by (relation "measure (\<lambda>(i, stop, step). nat (stop - i))") auto

function range_down :: "int \<Rightarrow> int \<Rightarrow> int \<Rightarrow> int list" where
  "range_down i stop step =
     (if step < 0 \<and> stop < i then i # range_down (i + step) stop step else [])"
  by pat_completeness auto
termination
  by (relation "measure (\<lambda>(i, stop, step). nat (i - stop))") auto

declare range_up.simps [simp del] range_down.simps [simp del]

definition py_range :: "int \<Rightarrow> int \<Rightarrow> int \<Rightarrow> error + int list" where
  "py_range start stop step =
     (if step = 0 then Inl ValueError
      else if 0 < step then Inr (range_up start stop step)
      else Inr (range_down start stop step))"

text \<open>
  \<^verbatim>\<open>data[lo:hi]\<close>: a negative bound counts from the end, and both bounds are clamped
  to the list.
\<close>

definition slice_bound :: "nat \<Rightarrow> int \<Rightarrow> nat" where
  "slice_bound n k = (if k < 0 then nat (max 0 (k + int n)) else min (nat k) n)"

definition py_slice :: "'a list \<Rightarrow> int \<Rightarrow> int \<Rightarrow> 'a list" where
  "py_slice data lo hi =
     (let l = slice_bound (length data) lo; h = slice_bound (length data) hi
      in take (h - l) (drop l data))"

section \<open>Chunking (\<^verbatim>\<open>chunk_list\<close> of dispatcher/utils.py and discovery_worker/utils.py)\<close>

text \<open>
  Both utility modules carry the same text:
  \<^verbatim>\<open>
  def chunk_list(data, size):
      if not data:
          return []
      return [data[i:i + size] for i in range(0, len(data), size)]
  \<close>
\<close>

definition chunk_list :: "'a list \<Rightarrow> int \<Rightarrow> error + 'a list list" where
  "chunk_list data sz =
     (if data = [] then Inr []
      else (case py_range 0 (int (length data)) sz of
              Inl e \<Rightarrow> Inl e
            | Inr starts \<Rightarrow> Inr (map (\<lambda>i. py_slice data i (i + sz)) starts)))"

text \<open>
  \<^verbatim>\<open>str(i)\<close> for an integer: the decimal digits, with a minus sign in front of a negative
  number. It renders page numbers and listing IDs in URLs and the keys of the detail blob.
\<close>

definition digit_char :: "nat \<Rightarrow> char" where
  "digit_char d = ''0123456789'' ! d"

function nat_digits :: "nat \<Rightarrow> string" where
  "nat_digits n = (if n < 10 then [digit_char n] else nat_digits (n div 10) @ [digit_char (n mod 10)])"
  by pat_completeness auto
termination
  by (relation "measure (\<lambda>n. n)") auto

declare nat_digits.simps [simp del]

definition py_str :: "int \<Rightarrow> string" where
  "py_str i = (if i < 0 then CHR ''-'' # nat_digits (nat (- i)) else nat_digits (nat i))"

text \<open>\<^verbatim>\<open>s.replace('/', '-')\<close>.\<close>

definition replace_slash :: "string \<Rightarrow> string" where
  "replace_slash s = map (\<lambda>c. if c = CHR ''/'' then CHR ''-'' else c) s"

text \<open>
  \<^verbatim>\<open>max(xs)\<close> raises ValueError on an empty list.
\<close>

fun py_max :: "int list \<Rightarrow> error + int" where
  "py_max [] = Inl ValueError"
| "py_max (x # xs) = Inr (foldl max x xs)"

text \<open>
  A Python dict keeps its keys in the order of first insertion; assigning to a key that is
  present replaces the value where it stands.
\<close>

fun dict_set :: "('k \<times> 'v) list \<Rightarrow> 'k \<Rightarrow> 'v \<Rightarrow> ('k \<times> 'v) list" where
  "dict_set [] k v = [(k, v)]"
| "dict_set ((k', v') # d) k v = (if k' = k then (k, v) # d else (k', v') # dict_set d k v)"

section \<open>The upstream API and the fetch session\<close>

text \<open>
  The \<open>id\<close> entry of a search result as \<^verbatim>\<open>result.get("id", None)\<close> meets it: the key is
  absent, its value is \<^verbatim>\<open>null\<close>, or it is an integer (the upstream interface types it
  \<open>id:int\<close>). The other fields of a result, and the fields of a detail record, are kept as
  an association list; an empty one is the empty JSON object.
\<close>

datatype json_id = IdAbsent | IdNull | IdInt int

record listing =
  listing_id :: json_id
  listing_fields :: "(string \<times> string) list"

type_synonym detail = "(string \<times> string) list"

text \<open>
  A parsed response body is a JSON object, of which the code reads three keys:
  \<open>totalItems\<close>, \<open>results\<close> and \<open>classified\<close>; \<open>None\<close> is a key that is absent.
\<close>

record doc =
  totalItems :: "int option"
  results :: "listing list option"
  classified :: "detail option"

datatype payload = Unparseable | Parsed doc

text \<open>
  \<^verbatim>\<open>session.get(url)\<close> either returns a response (status code and body) or raises
  \<^verbatim>\<open>requests.RequestException\<close>.
\<close>

datatype outcome = Response int payload | NetworkError

text \<open>
  The upstream is a script: \<open>net url k\<close> is the outcome of the \<open>k\<close>-th GET of \<open>url\<close>
  (counting from 0). \<open>get_log\<close> holds the URLs fetched so far, oldest first, so that the
  number of fetch attempts is observable. \<open>gateway_ok\<close> tells whether
  \<^verbatim>\<open>create_session_with_ip_rotation\<close> succeeds.
\<close>

record http =
  net :: "string \<Rightarrow> nat \<Rightarrow> outcome"
  get_log :: "string list"
  gateway_ok :: bool

definition session_get :: "string \<Rightarrow> 'a http_scheme \<Rightarrow> outcome \<times> 'a http_scheme" where
  "session_get url w =
     (net w url (count_list (get_log w) url), w\<lparr>get_log := get_log w @ [url]\<rparr>)"

definition create_session_with_ip_rotation :: "'a http_scheme \<Rightarrow> error + unit" where
  "create_session_with_ip_rotation w =
     (if gateway_ok w then Inr () else Inl (PyException ''gateway start failed''))"

definition BASE_URL :: string where
  "BASE_URL = ''https://www.immoweb.be''"

section \<open>Collaborators of the workers: parameter store, queue, blob store, clock\<close>

text \<open>
  The text stored in a parameter, by what \<^verbatim>\<open>int()\<close> makes of it: \<open>IntText v\<close> is a
  text that \<^verbatim>\<open>int()\<close> reads as \<open>v\<close> (\<^verbatim>\<open>str(v)\<close> is one), \<open>OtherText\<close> a text on which
  \<^verbatim>\<open>int()\<close> raises ValueError.
\<close>

datatype param_text = IntText int | OtherText string

text \<open>
  \<^verbatim>\<open>ssm_client.get_parameter(Name=name)\<close> answers with the parameter or raises a
  ClientError with an error code; a parameter that does not exist is the code
  \<open>ParameterNotFound\<close>.
\<close>

datatype ssm_reply = Parameter param_text | ClientErr string

text \<open>A queue message body; both queues carry a JSON object with these keys.\<close>

record message =
  transaction_type :: "string option"
  page_numbers :: "int list option"
  listing_ids :: "int list option"

record sqs_send =
  QueueUrl :: string
  MessageBody :: message

datatype blob = Snapshot "(int \<times> listing) list" | Details "(string \<times> detail) list"

record s3_object =
  Bucket :: string
  Key :: string
  Body :: blob

text \<open>
  The state a worker invocation acts on. The three \<open>_fault\<close> fields say which requests the
  collaborator rejects with a ClientError (and with which code). \<open>clock k\<close> is what the
  \<open>k\<close>-th call of \<^verbatim>\<open>context.get_remaining_time_in_millis()\<close> returns. \<open>now_stamp k\<close> and
  \<open>rand_suffix k\<close> are the values of \<^verbatim>\<open>datetime.now().strftime(...)\<close> and
  \<^verbatim>\<open>random.randint(1000, 9999)\<close> when \<open>k\<close> blobs have been written.
\<close>

record world = http +
  ssm :: "string \<Rightarrow> ssm_reply"
  ssm_put_fault :: "string \<Rightarrow> string option"
  sqs_sent :: "sqs_send list"
  sqs_fault :: "message \<Rightarrow> string option"
  s3_objects :: "s3_object list"
  s3_fault :: "string \<Rightarrow> string option"
  clock :: "nat \<Rightarrow> int"
  clock_reads :: nat
  now_stamp :: "nat \<Rightarrow> string"
  rand_suffix :: "nat \<Rightarrow> int"

text \<open>The environment variables read at import time.\<close>

record env =
  ID_BATCH_QUEUE_URL :: "string option"
  ID_BATCH_SIZE :: int
  S3_BUCKET_NAME :: "string option"

text \<open>Truth value of an environment variable: unset and the empty string are falsy.\<close>

definition env_set :: "string option \<Rightarrow> bool" where
  "env_set v = (case v of None \<Rightarrow> False | Some s \<Rightarrow> s \<noteq> [])"

text \<open>
  boto3 refuses a call whose \<open>Bucket\<close> or \<open>QueueUrl\<close> is \<^verbatim>\<open>None\<close> before sending it.
\<close>

definition s3_put_object :: "string option \<Rightarrow> string \<Rightarrow> blob \<Rightarrow> world \<Rightarrow> (error + unit) \<times> world" where
  "s3_put_object bucket key b w =
     (case bucket of
        None \<Rightarrow> (Inl (PyException ''ParamValidationError''), w)
      | Some bk \<Rightarrow>
          (case s3_fault w key of
             Some code \<Rightarrow> (Inl (ClientError code), w)
           | None \<Rightarrow> (Inr (), w\<lparr>s3_objects := s3_objects w @ [\<lparr>Bucket = bk, Key = key, Body = b\<rparr>]\<rparr>)))"

definition sqs_send_message :: "string option \<Rightarrow> message \<Rightarrow> world \<Rightarrow> (error + unit) \<times> world" where
  "sqs_send_message queue m w =
     (case queue of
        None \<Rightarrow> (Inl (PyException ''ParamValidationError''), w)
      | Some q \<Rightarrow>
          (case sqs_fault w m of
             Some code \<Rightarrow> (Inl (ClientError code), w)
           | None \<Rightarrow> (Inr (), w\<lparr>sqs_sent := sqs_sent w @ [\<lparr>QueueUrl = q, MessageBody = m\<rparr>]\<rparr>)))"

definition get_remaining_time_in_millis :: "world \<Rightarrow> int \<times> world" where
  "get_remaining_time_in_millis w = (clock w (clock_reads w), w\<lparr>clock_reads := Suc (clock_reads w)\<rparr>)"

section \<open>Watermark store client (discovery_worker/utils.py)\<close>

text \<open>
  \<^verbatim>\<open>
  def get_ssm_parameter(parameter_name):
      try:
          response = ssm_client.get_parameter(Name=parameter_name, WithDecryption=True)
          value = int(response["Parameter"]["Value"])
          return value
      except ClientError as e:
          if e.response["Error"]["Code"] == "ParameterNotFound":
              return 0
          else:
              raise
      except (ValueError, TypeError) as e:
          raise
  \<close>
  The module imports \<^verbatim>\<open>logging\<close>, \<^verbatim>\<open>os\<close>, \<^verbatim>\<open>random\<close>, \<^verbatim>\<open>typing\<close>, \<^verbatim>\<open>boto3\<close>,
  \<^verbatim>\<open>requests\<close> and the gateway adapter; the name \<^verbatim>\<open>ClientError\<close> is never bound in it.
  An exception that leaves the \<^verbatim>\<open>try\<close> body is matched against the first clause,
  \<^verbatim>\<open>except ClientError\<close>, and evaluating that name raises NameError: so does the
  ClientError of a missing parameter, and so does the ValueError of \<^verbatim>\<open>int()\<close>. Only a
  read that raises nothing returns.
\<close>

definition except_ClientError :: "error \<Rightarrow> error" where
  "except_ClientError raised = NameError"

definition get_ssm_parameter :: "string \<Rightarrow> world \<Rightarrow> error + int" where
  "get_ssm_parameter parameter_name w =
     (case ssm w parameter_name of
        Parameter (IntText v) \<Rightarrow> Inr v
      | Parameter (OtherText t) \<Rightarrow> Inl (except_ClientError ValueError)
      | ClientErr code \<Rightarrow> Inl (except_ClientError (ClientError code)))"

text \<open>
  \<^verbatim>\<open>
  def update_ssm_parameter(parameter_name, value):
      try:
          ssm_client.put_parameter(Name=parameter_name, Value=str(value),
                                   Type="String", Overwrite=True)
      except ClientError as e:
          logger.error(...)
          raise
  \<close>
  A put that the store rejects meets the same unbound name.
\<close>

definition update_ssm_parameter :: "string \<Rightarrow> int \<Rightarrow> world \<Rightarrow> (error + unit) \<times> world" where
  "update_ssm_parameter parameter_name v w =
     (case ssm_put_fault w parameter_name of
        Some code \<Rightarrow> (Inl (except_ClientError (ClientError code)), w)
      | None \<Rightarrow> (Inr (), w\<lparr>ssm := (ssm w)(parameter_name := Parameter (IntText v))\<rparr>))"

section \<open>Discovery Worker (discovery_worker/lambda_function.py)\<close>

subsection \<open>\<^verbatim>\<open>scrape_search_page_with_retries\<close>\<close>

text \<open>
  \<^verbatim>\<open>
  def scrape_search_page_with_retries(session, gateway, url, page_num):
      nbr_retries = 0
      max_retries = 5
      while nbr_retries < max_retries:
          try:
              response = session.get(url, timeout=10)
              if response.status_code == 200:
                  try:
                      data = response.json()
                      return data.get("results", [])
                  except json.JSONDecodeError:
                      break
              elif response.status_code in [403, 429]:
                  time.sleep(random.uniform(2, 5))
              else:
                  logger.warning(...)
          except requests.RequestException as e:
              time.sleep(random.uniform(2, 3))
          nbr_retries += 1
      raise Exception(f"Failed to scrape page {page_num} after {max_retries} attempts")
  \<close>
  The loop is \<open>search_attempts\<close>, started at \<open>nbr_retries = 0\<close>. The \<^verbatim>\<open>break\<close> leaves the
  loop for the \<^verbatim>\<open>raise\<close> that follows it.
\<close>

datatype pyval = PySession | PyGateway | PyStr string | PyInt int

definition search_max_retries :: nat where
  "search_max_retries = 5"

definition search_failed :: error where
  "search_failed = PyException ''Failed to scrape page''"

function search_attempts :: "string \<Rightarrow> int \<Rightarrow> nat \<Rightarrow> world \<Rightarrow> (error + listing list) \<times> world" where
  "search_attempts url page_num nbr_retries w =
     (if nbr_retries < search_max_retries then
        (let response = fst (session_get url w); w' = snd (session_get url w)
         in case response of
              NetworkError \<Rightarrow> search_attempts url page_num (nbr_retries + 1) w'
            | Response status_code b \<Rightarrow>
                if status_code = 200 then
                  (case b of
                     Parsed data \<Rightarrow> (Inr (case results data of None \<Rightarrow> [] | Some rs \<Rightarrow> rs), w')
                   | Unparseable \<Rightarrow> (Inl search_failed, w'))
                else if status_code = 403 \<or> status_code = 429 then
                  search_attempts url page_num (nbr_retries + 1) w'
                else search_attempts url page_num (nbr_retries + 1) w')
      else (Inl search_failed, w))"
  by pat_completeness auto
termination
  by (relation "measure (\<lambda>(url, page_num, nbr_retries, w). search_max_retries - nbr_retries)") auto

declare search_attempts.simps [simp del]

definition scrape_search_page_with_retries ::
  "pyval \<Rightarrow> pyval \<Rightarrow> string \<Rightarrow> int \<Rightarrow> world \<Rightarrow> (error + listing list) \<times> world" where
  "scrape_search_page_with_retries session gateway url page_num w = search_attempts url page_num 0 w"

text \<open>
  A call binds its positional arguments to the four parameters from the left; a call
  that leaves a parameter without a value raises TypeError before the body runs.
\<close>

definition call_scrape_search_page_with_retries ::
  "pyval list \<Rightarrow> world \<Rightarrow> (error + listing list) \<times> world" where
  "call_scrape_search_page_with_retries args w =
     (case args of
        [session, gateway, PyStr url, PyInt page_num] \<Rightarrow>
          scrape_search_page_with_retries session gateway url page_num w
      | _ \<Rightarrow> (Inl TypeError, w))"

subsection \<open>\<^verbatim>\<open>process_record\<close>\<close>

text \<open>
  Lines 102 to 106, the loop over the results of one page:
  \<^verbatim>\<open>
  for result in results:
      ad_id = result.get("id", None)
      if ad_id:
          all_ids_in_batch.append(ad_id)
          snapshot_data_for_batch[ad_id] = result
  \<close>
\<close>

definition result_get_id :: "listing \<Rightarrow> int option" where
  "result_get_id result =
     (case listing_id result of IdAbsent \<Rightarrow> None | IdNull \<Rightarrow> None | IdInt n \<Rightarrow> Some n)"

type_synonym batch_acc = "int list \<times> (int \<times> listing) list"

fun collect_results :: "listing list \<Rightarrow> batch_acc \<Rightarrow> batch_acc" where
  "collect_results [] acc = acc"
| "collect_results (result # rest) (all_ids_in_batch, snapshot_data_for_batch) =
     (case result_get_id result of
        None \<Rightarrow> collect_results rest (all_ids_in_batch, snapshot_data_for_batch)
      | Some ad_id \<Rightarrow>
          if ad_id \<noteq> 0 then
            collect_results rest
              (all_ids_in_batch @ [ad_id], dict_set snapshot_data_for_batch ad_id result)
          else collect_results rest (all_ids_in_batch, snapshot_data_for_batch))"

text \<open>
  Lines 93 to 106, the loop over the pages. The call is written
  \<^verbatim>\<open>scrape_search_page_with_retries(session, url, page_num)\<close>, with three arguments.
\<close>

definition search_url :: "string \<Rightarrow> int \<Rightarrow> string" where
  "search_url tt page_num = BASE_URL @ ''/fr/search-results/'' @ tt @ ''?page='' @ py_str page_num"

fun collect_pages :: "string \<Rightarrow> int list \<Rightarrow> batch_acc \<Rightarrow> world \<Rightarrow> (error + batch_acc) \<times> world" where
  "collect_pages tt [] acc w = (Inr acc, w)"
| "collect_pages tt (page_num # rest) acc w =
     (case call_scrape_search_page_with_retries
             [PySession, PyStr (search_url tt page_num), PyInt page_num] w of
        (Inl e, w') \<Rightarrow> (Inl e, w')
      | (Inr rs, w') \<Rightarrow>
          if rs = [] then collect_pages tt rest acc w'
          else collect_pages tt rest (collect_results rs acc) w')"

text \<open>Lines 108 to 119: the snapshot blob, written when the map is not empty.\<close>

definition snapshot_key :: "string \<Rightarrow> world \<Rightarrow> string" where
  "snapshot_key tt w =
     ''snapshots/'' @ tt @ ''/'' @ replace_slash tt @ ''_''
       @ py_str (rand_suffix w (length (s3_objects w)))
       @ ''_'' @ now_stamp w (length (s3_objects w)) @ ''.json''"

definition put_snapshot :: "env \<Rightarrow> string \<Rightarrow> (int \<times> listing) list \<Rightarrow> world \<Rightarrow> (error + unit) \<times> world" where
  "put_snapshot e tt snapshot_data_for_batch w =
     (if snapshot_data_for_batch \<noteq> [] then
        s3_put_object (S3_BUCKET_NAME e) (snapshot_key tt w) (Snapshot snapshot_data_for_batch) w
      else (Inr (), w))"

text \<open>
  Lines 130 to 139: one message per chunk of the new IDs.
\<close>

fun send_id_batches :: "env \<Rightarrow> string \<Rightarrow> int list list \<Rightarrow> world \<Rightarrow> (error + unit) \<times> world" where
  "send_id_batches e tt [] w = (Inr (), w)"
| "send_id_batches e tt (batch # rest) w =
     (case sqs_send_message (ID_BATCH_QUEUE_URL e)
             \<lparr>transaction_type = Some tt, page_numbers = None, listing_ids = Some batch\<rparr> w of
        (Inl err, w') \<Rightarrow> (Inl err, w')
      | (Inr u, w') \<Rightarrow> send_id_batches e tt rest w')"

text \<open>
  Lines 121 to 143: read the watermark, forward the IDs above it, advance it.
  \<^verbatim>\<open>
  ssm_parameter_name = f"/{transaction_type}"
  last_known_max_id = get_ssm_parameter(ssm_parameter_name)
  if all_ids_in_batch:
      current_max_id = max(all_ids_in_batch)
      new_ids = [x for x in all_ids_in_batch if x > last_known_max_id]
      if new_ids:
          id_batches = chunk_list(new_ids, ID_BATCH_SIZE)
          for batch in id_batches:
              sqs_client.send_message(...)
      if current_max_id > last_known_max_id:
          update_ssm_parameter(ssm_parameter_name, current_max_id)
  \<close>
\<close>

definition forward_new_ids :: "env \<Rightarrow> string \<Rightarrow> int list \<Rightarrow> world \<Rightarrow> (error + unit) \<times> world" where
  "forward_new_ids e tt new_ids w =
     (if new_ids \<noteq> [] then
        (case chunk_list new_ids (ID_BATCH_SIZE e) of
           Inl err \<Rightarrow> (Inl err, w)
         | Inr id_batches \<Rightarrow> send_id_batches e tt id_batches w)
      else (Inr (), w))"

definition publish_ids :: "env \<Rightarrow> string \<Rightarrow> int list \<Rightarrow> world \<Rightarrow> (error + unit) \<times> world" where
  "publish_ids e tt all_ids_in_batch w =
     (let ssm_parameter_name = ''/'' @ tt
      in case get_ssm_parameter ssm_parameter_name w of
           Inl err \<Rightarrow> (Inl err, w)
         | Inr last_known_max_id \<Rightarrow>
             if all_ids_in_batch \<noteq> [] then
               (case py_max all_ids_in_batch of
                  Inl err \<Rightarrow> (Inl err, w)
                | Inr current_max_id \<Rightarrow>
                    (case forward_new_ids e tt
                            (filter (\<lambda>x. x > last_known_max_id) all_ids_in_batch) w of
                       (Inl err, w') \<Rightarrow> (Inl err, w')
                     | (Inr u, w') \<Rightarrow>
                         if current_max_id > last_known_max_id then
                           update_ssm_parameter ssm_parameter_name current_max_id w'
                         else (Inr (), w')))
             else (Inr (), w))"

text \<open>Lines 108 to 143: what \<^verbatim>\<open>process_record\<close> does with the collected data.\<close>

definition store_and_publish :: "env \<Rightarrow> string \<Rightarrow> batch_acc \<Rightarrow> world \<Rightarrow> (error + unit) \<times> world" where
  "store_and_publish e tt acc w =
     (case acc of
        (all_ids_in_batch, snapshot_data_for_batch) \<Rightarrow>
          (case put_snapshot e tt snapshot_data_for_batch w of
             (Inl err, w1) \<Rightarrow> (Inl err, w1)
           | (Inr u, w1) \<Rightarrow> publish_ids e tt all_ids_in_batch w1))"

text \<open>The listing IDs carried by a sequence of sent messages, in order.\<close>

definition forwarded_ids :: "sqs_send list \<Rightarrow> int list" where
  "forwarded_ids sent =
     concat (map (\<lambda>s. case listing_ids (MessageBody s) of None \<Rightarrow> [] | Some ids \<Rightarrow> ids) sent)"

text \<open>
  An SQS record: its identifier and its body, where \<open>None\<close> is a body that
  \<^verbatim>\<open>json.loads\<close> rejects.
\<close>

record sqs_record =
  messageId :: string
  body :: "message option"

text \<open>
  The whole of \<^verbatim>\<open>process_record\<close>. It reads \<^verbatim>\<open>message_body['transaction_type']\<close> and
  \<^verbatim>\<open>message_body['page_numbers']\<close> (KeyError when absent) and formats
  \<^verbatim>\<open>page_numbers[0]\<close> into its first log line (IndexError on an empty list).
\<close>

definition discovery_process_record :: "env \<Rightarrow> sqs_record \<Rightarrow> world \<Rightarrow> (error + unit) \<times> world" where
  "discovery_process_record e record w =
     (case body record of
        None \<Rightarrow> (Inl JSONDecodeError, w)
      | Some message_body \<Rightarrow>
          (case transaction_type message_body of
             None \<Rightarrow> (Inl KeyError, w)
           | Some tt \<Rightarrow>
               (case page_numbers message_body of
                  None \<Rightarrow> (Inl KeyError, w)
                | Some pages \<Rightarrow>
                    if pages = [] then (Inl IndexError, w)
                    else
                      (case collect_pages tt pages ([], []) w of
                         (Inl err, w1) \<Rightarrow> (Inl err, w1)
                       | (Inr acc, w1) \<Rightarrow> store_and_publish e tt acc w1))))"

subsection \<open>\<^verbatim>\<open>lambda_handler\<close>\<close>

text \<open>
  \<^verbatim>\<open>
  for record in event['Records']:
      try:
          if context.get_remaining_time_in_millis() < 10000:
              batch_item_failures.append({"itemIdentifier": record['messageId']})
              continue
          process_record(record, session)
      except Exception as e:
          batch_item_failures.append({"itemIdentifier": record['messageId']})
  \<close>
\<close>

fun discovery_records :: "env \<Rightarrow> sqs_record list \<Rightarrow> string list \<Rightarrow> world \<Rightarrow> string list \<times> world" where
  "discovery_records e [] batch_item_failures w = (batch_item_failures, w)"
| "discovery_records e (record # rest) batch_item_failures w =
     (case get_remaining_time_in_millis w of
        (remaining, w1) \<Rightarrow>
          if remaining < 10000 then
            discovery_records e rest (batch_item_failures @ [messageId record]) w1
          else
            (case discovery_process_record e record w1 of
               (Inl err, w2) \<Rightarrow> discovery_records e rest (batch_item_failures @ [messageId record]) w2
             | (Inr u, w2) \<Rightarrow> discovery_records e rest batch_item_failures w2))"

text \<open>
  The handler raises ValueError when a queue URL or bucket name is missing, and raises
  what \<^verbatim>\<open>create_session_with_ip_rotation\<close> raises; otherwise it returns the failure
  report \<^verbatim>\<open>{"batchItemFailures": [...]}\<close>.
\<close>

definition discovery_lambda_handler :: "env \<Rightarrow> sqs_record list \<Rightarrow> world \<Rightarrow> (error + string list) \<times> world" where
  "discovery_lambda_handler e records w =
     (if \<not> (env_set (ID_BATCH_QUEUE_URL e) \<and> env_set (S3_BUCKET_NAME e)) then (Inl ValueError, w)
      else
        (case create_session_with_ip_rotation w of
           Inl err \<Rightarrow> (Inl err, w)
         | Inr u \<Rightarrow>
             (case discovery_records e records [] w of
                (batch_item_failures, w') \<Rightarrow> (Inr batch_item_failures, w'))))"

section \<open>Extractor Worker (extractor_worker/lambda_function.py)\<close>

subsection \<open>\<^verbatim>\<open>scrape_ad_details\<close>\<close>

text \<open>
  \<^verbatim>\<open>
  def scrape_ad_details(session, ad_id):
      url = f"{BASE_URL}/fr/classified/get-result/{ad_id}"
      max_retries = 3
      for attempt in range(max_retries):
          try:
              response = session.get(url, timeout=5)
              if response.status_code == 200:
                  try:
                      data = response.json()
                      return data.get("classified")
                  except json.JSONDecodeError:
                      return None
              elif response.status_code == 404:
                  return None
              elif response.status_code in [403, 429]:
                  time.sleep(random.uniform(1, 3))
              else:
                  logger.warning(...)
          except requests.RequestException as e:
              time.sleep(1)
      raise Exception(f"Failed to fetch ID {ad_id} after {max_retries} attempts")
  \<close>
\<close>

definition detail_max_retries :: nat where
  "detail_max_retries = 3"

definition detail_failed :: error where
  "detail_failed = PyException ''Failed to fetch ID''"

function detail_attempts :: "string \<Rightarrow> nat \<Rightarrow> world \<Rightarrow> (error + detail option) \<times> world" where
  "detail_attempts url attempt w =
     (if attempt < detail_max_retries then
        (let response = fst (session_get url w); w' = snd (session_get url w)
         in case response of
              NetworkError \<Rightarrow> detail_attempts url (attempt + 1) w'
            | Response status_code b \<Rightarrow>
                if status_code = 200 then
                  (case b of
                     Parsed data \<Rightarrow> (Inr (classified data), w')
                   | Unparseable \<Rightarrow> (Inr None, w'))
                else if status_code = 404 then (Inr None, w')
                else if status_code = 403 \<or> status_code = 429 then
                  detail_attempts url (attempt + 1) w'
                else detail_attempts url (attempt + 1) w')
      else (Inl detail_failed, w))"
  by pat_completeness auto
termination
  by (relation "measure (\<lambda>(url, attempt, w). detail_max_retries - attempt)") auto

declare detail_attempts.simps [simp del]

definition detail_url :: "int \<Rightarrow> string" where
  "detail_url ad_id = BASE_URL @ ''/fr/classified/get-result/'' @ py_str ad_id"

definition scrape_ad_details :: "pyval \<Rightarrow> int \<Rightarrow> world \<Rightarrow> (error + detail option) \<times> world" where
  "scrape_ad_details session ad_id w = detail_attempts (detail_url ad_id) 0 w"

subsection \<open>\<^verbatim>\<open>process_record\<close>\<close>

text \<open>
  \<^verbatim>\<open>
  for ad_id in ad_ids:
      try:
          ad_data = scrape_ad_details(session, ad_id)
          if ad_data:
              batch_results[str(ad_id)] = ad_data
      except Exception as e:
          continue
  \<close>
  An empty \<open>classified\<close> object is falsy, like \<^verbatim>\<open>None\<close>.
\<close>

fun scrape_ids :: "int list \<Rightarrow> (string \<times> detail) list \<Rightarrow> world \<Rightarrow> (string \<times> detail) list \<times> world" where
  "scrape_ids [] batch_results w = (batch_results, w)"
| "scrape_ids (ad_id # rest) batch_results w =
     (case scrape_ad_details PySession ad_id w of
        (Inl err, w') \<Rightarrow> scrape_ids rest batch_results w'
      | (Inr None, w') \<Rightarrow> scrape_ids rest batch_results w'
      | (Inr (Some ad_data), w') \<Rightarrow>
          if ad_data \<noteq> [] then scrape_ids rest (dict_set batch_results (py_str ad_id) ad_data) w'
          else scrape_ids rest batch_results w')"

definition detail_key :: "string \<Rightarrow> world \<Rightarrow> string" where
  "detail_key tt w =
     tt @ ''/'' @ replace_slash tt @ ''_'' @ py_str (rand_suffix w (length (s3_objects w)))
       @ ''_'' @ now_stamp w (length (s3_objects w)) @ ''.json''"

text \<open>
  \<^verbatim>\<open>message_body.get('transaction_type', 'unknown')\<close> and
  \<^verbatim>\<open>message_body.get('listing_ids', [])\<close> give defaults for absent keys. A ClientError of
  the blob write is logged and raised again.
\<close>

definition extractor_process_record :: "env \<Rightarrow> sqs_record \<Rightarrow> world \<Rightarrow> (error + unit) \<times> world" where
  "extractor_process_record e record w =
     (case body record of
        None \<Rightarrow> (Inl JSONDecodeError, w)
      | Some message_body \<Rightarrow>
          (let tt = (case transaction_type message_body of None \<Rightarrow> ''unknown'' | Some t \<Rightarrow> t);
               ad_ids = (case listing_ids message_body of None \<Rightarrow> [] | Some ids \<Rightarrow> ids)
           in case scrape_ids ad_ids [] w of
                (batch_results, w1) \<Rightarrow>
                  if batch_results \<noteq> [] then
                    s3_put_object (S3_BUCKET_NAME e) (detail_key tt w1) (Details batch_results) w1
                  else (Inr (), w1)))"

subsection \<open>\<^verbatim>\<open>lambda_handler\<close>\<close>

fun extractor_records :: "env \<Rightarrow> sqs_record list \<Rightarrow> string list \<Rightarrow> world \<Rightarrow> string list \<times> world" where
  "extractor_records e [] batch_item_failures w = (batch_item_failures, w)"
| "extractor_records e (record # rest) batch_item_failures w =
     (case get_remaining_time_in_millis w of
        (remaining, w1) \<Rightarrow>
          if remaining < 10000 then
            extractor_records e rest (batch_item_failures @ [messageId record]) w1
          else
            (case extractor_process_record e record w1 of
               (Inl err, w2) \<Rightarrow> extractor_records e rest (batch_item_failures @ [messageId record]) w2
             | (Inr u, w2) \<Rightarrow> extractor_records e rest batch_item_failures w2))"

definition extractor_lambda_handler :: "env \<Rightarrow> sqs_record list \<Rightarrow> world \<Rightarrow> (error + string list) \<times> world" where
  "extractor_lambda_handler e records w =
     (if \<not> env_set (S3_BUCKET_NAME e) then (Inl ValueError, w)
      else
        (case create_session_with_ip_rotation w of
           Inl err \<Rightarrow> (Inl err, w)
         | Inr u \<Rightarrow>
             (case extractor_records e records [] w of
                (batch_item_failures, w') \<Rightarrow> (Inr batch_item_failures, w'))))"

section \<open>Dispatcher (dispatcher/lambda_function.py)\<close>

text \<open>
  \<^verbatim>\<open>
  def get_total_pages(session, gateway, transaction_type):
      url = f"{BASE_URL}/fr/search-results/{transaction_type}?page=1"
      response = session.get(url)
      nbr_retries_first_page = 1
      while response.status_code != 200:
          logger.warning(...)
          if session and gateway:
              session.close(); gateway.close(); time.sleep(1.5)
          session, gateway = create_session_with_ip_rotation()
          response = session.get(url)
          nbr_retries_first_page += 1
      data = response.json()
      total_items = data.get("totalItems", 9969)
      if "totalItems" not in data:
          logger.warning(f"totalItems not found in response. Fall back to 9969. ...")
      return (total_items // ITEMS_PER_PAGE) + 1
  \<close>
  The dispatcher's state is the fetch session and the warnings its logger has received.
  Nothing bounds the loop, so the function is partial: \<open>None\<close> is a run that never leaves
  it. Neither \<^verbatim>\<open>session.get\<close> nor \<^verbatim>\<open>response.json()\<close> is inside a \<^verbatim>\<open>try\<close>.
\<close>

datatype warning = FirstPageFailed int | TotalItemsFallback

record dispatcher_world = http +
  warnings :: "warning list"

definition ITEMS_PER_PAGE :: int where
  "ITEMS_PER_PAGE = 30"

definition log_warning :: "warning \<Rightarrow> dispatcher_world \<Rightarrow> dispatcher_world" where
  "log_warning x w = w\<lparr>warnings := warnings w @ [x]\<rparr>"

partial_function (option) first_page_loop ::
  "string \<Rightarrow> int \<Rightarrow> payload \<Rightarrow> dispatcher_world \<Rightarrow> ((error + payload) \<times> dispatcher_world) option" where
  "first_page_loop url status_code b w =
     (if status_code \<noteq> 200 then
        (let w1 = log_warning (FirstPageFailed status_code) w
         in case create_session_with_ip_rotation w1 of
              Inl err \<Rightarrow> Some (Inl err, w1)
            | Inr u \<Rightarrow>
                (case fst (session_get url w1) of
                   NetworkError \<Rightarrow> Some (Inl RequestException, snd (session_get url w1))
                 | Response status_code' b' \<Rightarrow>
                     first_page_loop url status_code' b' (snd (session_get url w1))))
      else Some (Inr b, w))"

definition first_page_url :: "string \<Rightarrow> string" where
  "first_page_url tt = BASE_URL @ ''/fr/search-results/'' @ tt @ ''?page=1''"

definition get_total_pages ::
  "pyval \<Rightarrow> pyval \<Rightarrow> string \<Rightarrow> dispatcher_world \<Rightarrow> ((error + int) \<times> dispatcher_world) option" where
  "get_total_pages session gateway tt w =
     (let url = first_page_url tt
      in case fst (session_get url w) of
           NetworkError \<Rightarrow> Some (Inl RequestException, snd (session_get url w))
         | Response status_code b \<Rightarrow>
             (case first_page_loop url status_code b (snd (session_get url w)) of
                None \<Rightarrow> None
              | Some (Inl err, w1) \<Rightarrow> Some (Inl err, w1)
              | Some (Inr Unparseable, w1) \<Rightarrow> Some (Inl JSONDecodeError, w1)
              | Some (Inr (Parsed data), w1) \<Rightarrow>
                  (let total_items = (case totalItems data of None \<Rightarrow> 9969 | Some t \<Rightarrow> t);
                       w2 = (if totalItems data = None then log_warning TotalItemsFallback w1 else w1)
                   in Some (Inr (total_items div ITEMS_PER_PAGE + 1), w2))))"

section \<open>Scenarios\<close>

text \<open>
  A collaborator state in which nothing has happened yet: no GET made, no parameter
  stored, nothing sent or written, no request rejected.
\<close>

definition quiet_world :: "(string \<Rightarrow> nat \<Rightarrow> outcome) \<Rightarrow> (string \<Rightarrow> ssm_reply) \<Rightarrow> (nat \<Rightarrow> int) \<Rightarrow> world" where
  "quiet_world upstream params budget =
     \<lparr>net = upstream, get_log = [], gateway_ok = True,
      ssm = params, ssm_put_fault = (\<lambda>n. None),
      sqs_sent = [], sqs_fault = (\<lambda>m. None),
      s3_objects = [], s3_fault = (\<lambda>k. None),
      clock = budget, clock_reads = 0,
      now_stamp = (\<lambda>k. ''12000001012026''), rand_suffix = (\<lambda>k. 4242 + int k)\<rparr>"

definition no_params :: "string \<Rightarrow> ssm_reply" where
  "no_params n = ClientErr ''ParameterNotFound''"

definition test_env :: env where
  "test_env = \<lparr>ID_BATCH_QUEUE_URL = Some ''id-batch-queue'', ID_BATCH_SIZE = 100,
               S3_BUCKET_NAME = Some ''bucket''\<rparr>"

definition summary :: "int \<Rightarrow> listing" where
  "summary n = \<lparr>listing_id = IdInt n, listing_fields = [(''type'', ''HOUSE'')]\<rparr>"

definition page_of :: "int list \<Rightarrow> outcome" where
  "page_of ids =
     Response 200 (Parsed \<lparr>totalItems = Some 5, results = Some (map summary ids), classified = None\<rparr>)"

text \<open>
  The page-batch scenario: category \<open>house-sale\<close>, pages 1 and 2 with the IDs 10, 20, 30
  and 5, 40, stored watermark 25.
\<close>

definition house_sale_net :: "string \<Rightarrow> nat \<Rightarrow> outcome" where
  "house_sale_net url k =
     (if url = search_url ''house-sale'' 1 then page_of [10, 20, 30]
      else if url = search_url ''house-sale'' 2 then page_of [5, 40]
      else Response 404 Unparseable)"

definition house_sale_params :: "string \<Rightarrow> ssm_reply" where
  "house_sale_params n =
     (if n = ''/house-sale'' then Parameter (IntText 25) else ClientErr ''ParameterNotFound'')"

definition house_sale_world :: world where
  "house_sale_world = quiet_world house_sale_net house_sale_params (\<lambda>k. 60000)"

definition house_sale_record :: sqs_record where
  "house_sale_record =
     \<lparr>messageId = ''m-1'',
      body = Some \<lparr>transaction_type = Some ''house-sale'', page_numbers = Some [1, 2],
                   listing_ids = None\<rparr>\<rparr>"

text \<open>
  The same pages on the first discovery run of the category: no watermark is stored yet.
\<close>

definition first_run_world :: world where
  "first_run_world = quiet_world house_sale_net no_params (\<lambda>k. 60000)"

text \<open>What the two pages of the scenario amount to once collected.\<close>

definition house_sale_collected :: batch_acc where
  "house_sale_collected =
     collect_results (map summary [5, 40]) (collect_results (map summary [10, 20, 30]) ([], []))"

text \<open>
  The ID-batch scenario: IDs 101, 102, 103, where 102 answers 404 and the other two
  answer 200 with a detail record.
\<close>

definition detail_of :: "string \<Rightarrow> outcome" where
  "detail_of price =
     Response 200 (Parsed \<lparr>totalItems = None, results = None, classified = Some [(''price'', price)]\<rparr>)"

definition id_batch_net :: "string \<Rightarrow> nat \<Rightarrow> outcome" where
  "id_batch_net url k =
     (if url = detail_url 101 then detail_of ''250000''
      else if url = detail_url 103 then detail_of ''310000''
      else Response 404 Unparseable)"

definition id_batch_world :: world where
  "id_batch_world = quiet_world id_batch_net no_params (\<lambda>k. 60000)"

definition id_batch_record :: sqs_record where
  "id_batch_record =
     \<lparr>messageId = ''m-7'',
      body = Some \<lparr>transaction_type = Some ''house-sale'', page_numbers = None,
                   listing_ids = Some [101, 102, 103]\<rparr>\<rparr>"


definition broken_world :: world where
  "broken_world = quiet_world (\<lambda>url k. Response 500 Unparseable) no_params (\<lambda>k. 60000)"

text \<open>
  Invocations that run out of time: one that starts with 5000 ms left, and one that has
  60000 ms left at its first message and 5000 ms at the ones after it.
\<close>

definition late_world :: world where
  "late_world = quiet_world house_sale_net house_sale_params (\<lambda>k. 5000)"

definition closing_world :: world where
  "closing_world = quiet_world id_batch_net no_params (\<lambda>k. if k = 0 then 60000 else 5000)"

definition late_record :: sqs_record where
  "late_record =
     \<lparr>messageId = ''m-8'',
      body = Some \<lparr>transaction_type = Some ''house-sale'', page_numbers = None,
                   listing_ids = Some [104, 105]\<rparr>\<rparr>"

text \<open>
  Dispatcher runs: an upstream whose first page announces 1234 items, and one that
  answers 403 twice before a first page that carries no item count.
\<close>

definition dispatch_world :: "(string \<Rightarrow> nat \<Rightarrow> outcome) \<Rightarrow> dispatcher_world" where
  "dispatch_world upstream = \<lparr>net = upstream, get_log = [], gateway_ok = True, warnings = []\<rparr>"

definition counted_doc :: doc where
  "counted_doc = \<lparr>totalItems = Some 1234, results = Some [], classified = None\<rparr>"

definition uncounted_doc :: doc where
  "uncounted_doc = \<lparr>totalItems = None, results = Some [], classified = None\<rparr>"

definition counted_net :: "string \<Rightarrow> nat \<Rightarrow> outcome" where
  "counted_net url k = Response 200 (Parsed counted_doc)"

definition flaky_net :: "string \<Rightarrow> nat \<Rightarrow> outcome" where
  "flaky_net url k = (if k < 2 then Response 403 Unparseable else Response 200 (Parsed uncounted_doc))"

section \<open>Chunking\<close>

lemma py_slice_window:
  "0 \<le> i \<Longrightarrow> 0 < s \<Longrightarrow> py_slice data i (i + s) = take (nat s) (drop (nat i) data)"
  apply (simp add: py_slice_def slice_bound_def Let_def)
  apply (cases "nat i \<le> length data")
   apply (auto simp: min_def nat_add_distrib)
  done

lemma range_up_Nil: "stop \<le> i \<Longrightarrow> range_up i stop s = []"
  by (simp add: range_up.simps[of i])

lemma range_up_Cons:
  "0 < s \<Longrightarrow> i < stop \<Longrightarrow> range_up i stop s = i # range_up (i + s) stop s"
  by (simp add: range_up.simps[of i])

lemma py_slice_full_length:
  "0 \<le> i \<Longrightarrow> 0 < s \<Longrightarrow> i + s \<le> int (length data) \<Longrightarrow>
   int (length (py_slice data i (i + s))) = s"
  by (simp add: py_slice_window)

lemma py_slice_rest_length:
  "0 \<le> i \<Longrightarrow> 0 < s \<Longrightarrow> i < int (length data) \<Longrightarrow> int (length data) \<le> i + s \<Longrightarrow>
   1 \<le> length (py_slice data i (i + s)) \<and> int (length (py_slice data i (i + s))) \<le> s"
  by (simp add: py_slice_window)

lemma concat_windows:
  "0 < s \<Longrightarrow> 0 \<le> i \<Longrightarrow>
   concat (map (\<lambda>i. py_slice data i (i + s)) (range_up i (int (length data)) s)) = drop (nat i) data"
proof (induction i "int (length data)" s rule: range_up.induct)
  case (1 i s)
  let ?n = "int (length data)"
  show ?case
  proof (cases "i < ?n")
    case True
    have unf: "range_up i ?n s = i # range_up (i + s) ?n s"
      using "1.prems"(1) True by (rule range_up_Cons)
    have ih: "concat (map (\<lambda>i. py_slice data i (i + s)) (range_up (i + s) ?n s))
                = drop (nat (i + s)) data"
      using "1.hyps" "1.prems" True by simp
    have d: "drop (nat (i + s)) data = drop (nat s) (drop (nat i) data)"
      using "1.prems" by (simp add: nat_add_distrib add.commute)
    have "take (nat s) (drop (nat i) data) @ drop (nat s) (drop (nat i) data) = drop (nat i) data"
      by (rule append_take_drop_id)
    then show ?thesis unfolding unf using ih d "1.prems"
      by (simp add: py_slice_window del: drop_drop)
  next
    case False
    then have "range_up i ?n s = []" by (intro range_up_Nil) simp
    then show ?thesis using False "1.prems" by simp
  qed
qed

lemma full_windows:
  "0 < s \<Longrightarrow> 0 \<le> i \<Longrightarrow>
   \<forall>c \<in> set (butlast (map (\<lambda>i. py_slice data i (i + s)) (range_up i (int (length data)) s))).
      int (length c) = s"
proof (induction i "int (length data)" s rule: range_up.induct)
  case (1 i s)
  let ?f = "\<lambda>i. py_slice data i (i + s)"
  let ?n = "int (length data)"
  show ?case
  proof (cases "i < ?n")
    case lt: True
    have unf: "range_up i ?n s = i # range_up (i + s) ?n s"
      using "1.prems"(1) lt by (rule range_up_Cons)
    show ?thesis
    proof (cases "i + s < ?n")
      case True
      have ih: "\<forall>c \<in> set (butlast (map ?f (range_up (i + s) ?n s))). int (length c) = s"
        using "1.hyps" "1.prems" lt by simp
      have ne: "range_up (i + s) ?n s \<noteq> []"
        using range_up_Cons[of s "i + s" ?n] "1.prems"(1) True by simp
      have len: "int (length (?f i)) = s"
        using "1.prems" True by (intro py_slice_full_length) simp_all
      show ?thesis unfolding unf using ih ne len by simp
    next
      case False
      then have "range_up (i + s) ?n s = []" by (intro range_up_Nil) simp
      then show ?thesis unfolding unf by simp
    qed
  next
    case False
    then have "range_up i ?n s = []" by (intro range_up_Nil) simp
    then show ?thesis by simp
  qed
qed

lemma last_window:
  "0 < s \<Longrightarrow> 0 \<le> i \<Longrightarrow> i < int (length data) \<Longrightarrow>
   1 \<le> length (last (map (\<lambda>i. py_slice data i (i + s)) (range_up i (int (length data)) s)))
   \<and> int (length (last (map (\<lambda>i. py_slice data i (i + s)) (range_up i (int (length data)) s)))) \<le> s"
proof (induction i "int (length data)" s rule: range_up.induct)
  case (1 i s)
  let ?f = "\<lambda>i. py_slice data i (i + s)"
  let ?n = "int (length data)"
  have unf: "range_up i ?n s = i # range_up (i + s) ?n s"
    using "1.prems" by (intro range_up_Cons)
  show ?case
  proof (cases "i + s < ?n")
    case True
    have ih: "1 \<le> length (last (map ?f (range_up (i + s) ?n s)))
              \<and> int (length (last (map ?f (range_up (i + s) ?n s)))) \<le> s"
      using "1.hyps" "1.prems" True by simp
    have ne: "range_up (i + s) ?n s \<noteq> []"
      using range_up_Cons[of s "i + s" ?n] "1.prems"(1) True by simp
    show ?thesis unfolding unf using ih ne by simp
  next
    case False
    then have e: "range_up (i + s) ?n s = []" by (intro range_up_Nil) simp
    have "1 \<le> length (?f i) \<and> int (length (?f i)) \<le> s"
      using "1.prems" False by (intro py_slice_rest_length) simp_all
    then show ?thesis unfolding unf e by simp
  qed
qed

lemma chunk_list_windows:
  "0 < S \<Longrightarrow> L \<noteq> [] \<Longrightarrow>
   chunk_list L S = Inr (map (\<lambda>i. py_slice L i (i + S)) (range_up 0 (int (length L)) S))"
  by (simp add: chunk_list_def py_range_def)

lemma chunk_list_concat:
  assumes "0 < S"
  shows "\<exists>cs. chunk_list L S = Inr cs \<and> concat cs = L"
proof (cases "L = []")
  case True
  then show ?thesis by (simp add: chunk_list_def)
next
  case False
  then show ?thesis
    using chunk_list_windows[OF assms False] concat_windows[of S 0 L] assms by simp
qed

text \<open>
  C3. For every list \<open>L\<close> and chunk size \<open>S > 0\<close>, \<open>chunk_list L S\<close> returns chunks whose
  concatenation is \<open>L\<close> (the order is kept), every chunk but the last has length \<open>S\<close>, the
  last chunk has between 1 and \<open>S\<close> elements, and the empty list gives no chunks.
\<close>

theorem chunk_list_shape:
  assumes "0 < S"
  shows "\<exists>cs. chunk_list L S = Inr cs \<and> concat cs = L
           \<and> (\<forall>c \<in> set (butlast cs). int (length c) = S)
           \<and> (cs \<noteq> [] \<longrightarrow> 1 \<le> length (last cs) \<and> int (length (last cs)) \<le> S)
           \<and> (L = [] \<longrightarrow> cs = [])"
proof (cases "L = []")
  case True
  then show ?thesis by (simp add: chunk_list_def)
next
  case False
  let ?cs = "map (\<lambda>i. py_slice L i (i + S)) (range_up 0 (int (length L)) S)"
  have c: "chunk_list L S = Inr ?cs"
    using assms False by (rule chunk_list_windows)
  have 1: "concat ?cs = L" using concat_windows[of S 0 L] assms by simp
  have 2: "\<forall>c \<in> set (butlast ?cs). int (length c) = S"
    using full_windows[of S 0 L] assms by simp
  have 3: "1 \<le> length (last ?cs) \<and> int (length (last ?cs)) \<le> S"
    using last_window[of S 0 L] assms False by simp
  show ?thesis using c 1 2 3 False by simp
qed

theorem chunk_list_shape_witness:
  "(0::int) < 2 \<and> chunk_list [1, 2, 3, 4, 5 :: int] 2 = Inr [[1, 2], [3, 4], [5]]
   \<and> concat [[1, 2], [3, 4], [5 :: int]] = [1, 2, 3, 4, 5]
   \<and> map length (butlast [[1, 2], [3, 4], [5 :: int]]) = [2, 2]
   \<and> 1 \<le> length (last [[1, 2], [3, 4], [5 :: int]])
   \<and> int (length (last [[1, 2], [3, 4], [5 :: int]])) \<le> 2"
proof -
  have v: "chunk_list [1, 2, 3, 4, 5 :: int] 2 = Inr [[1, 2], [3, 4], [5]]"
    by code_simp
  have h: "(0::int) < 2" by simp
  from chunk_list_shape [OF h, of "[1, 2, 3, 4, 5 :: int]"]
  obtain cs where cs: "chunk_list [1, 2, 3, 4, 5 :: int] 2 = Inr cs" "concat cs = [1, 2, 3, 4, 5]"
     "cs \<noteq> [] \<longrightarrow> 1 \<le> length (last cs) \<and> int (length (last cs)) \<le> 2"
    by blast
  from cs(1) v have e: "cs = [[1, 2], [3, 4], [5]]" by simp
  from cs(2,3) h v show ?thesis unfolding e by simp
qed

section \<open>Watermark store\<close>

text \<open>
  C4. Reading the watermark of a category whose parameter does not exist: the store
  answers \<open>ParameterNotFound\<close> for \<open>"/" + C\<close>, and \<open>get_ssm_parameter\<close> does not return 0
  but raises NameError, here for the category \<open>house-rent\<close>.
\<close>

theorem get_ssm_parameter_absent_raises:
  "ssm house_sale_world (''/'' @ ''house-rent'') = ClientErr ''ParameterNotFound''
   \<and> get_ssm_parameter (''/'' @ ''house-rent'') house_sale_world = Inl NameError
   \<and> get_ssm_parameter (''/'' @ ''house-rent'') house_sale_world \<noteq> Inr 0"
  by (simp add: get_ssm_parameter_def except_ClientError_def house_sale_world_def quiet_world_def
        house_sale_params_def)

section \<open>Discovery Worker: collecting results\<close>

lemma dict_set_keys: "fst ` set (dict_set d k v) = insert k (fst ` set d)"
  by (induction d k v rule: dict_set.induct) auto

text \<open>
  C10. The loop over a page's results appends to the collected IDs, and enters into the
  snapshot map, exactly the results whose \<open>id\<close> is present and truthy, in order; results
  whose \<open>id\<close> is absent, null or 0 leave both untouched. The watermark and the forwarded
  IDs are computed from the collected IDs only.
\<close>

theorem collect_results_truthy_ids:
  "fst (collect_results rs (ids, snap))
     = ids @ List.map_filter
               (\<lambda>r. case listing_id r of IdInt n \<Rightarrow> if n \<noteq> 0 then Some n else None | _ \<Rightarrow> None) rs
   \<and> fst ` set (snd (collect_results rs (ids, snap)))
     = fst ` set snap \<union> set (List.map_filter
               (\<lambda>r. case listing_id r of IdInt n \<Rightarrow> if n \<noteq> 0 then Some n else None | _ \<Rightarrow> None) rs)
   \<and> ((\<forall>r \<in> set rs. listing_id r = IdAbsent \<or> listing_id r = IdNull \<or> listing_id r = IdInt 0)
        \<longrightarrow> collect_results rs (ids, snap) = (ids, snap))"
proof (induction rs arbitrary: ids snap)
  case Nil
  show ?case by (simp add: List.map_filter_simps)
next
  case (Cons r rs)
  show ?case
  proof (cases "listing_id r")
    case IdAbsent
    then show ?thesis using Cons.IH[of ids snap]
      by (simp add: result_get_id_def List.map_filter_simps)
  next
    case IdNull
    then show ?thesis using Cons.IH[of ids snap]
      by (simp add: result_get_id_def List.map_filter_simps)
  next
    case (IdInt n)
    show ?thesis
    proof (cases "n = 0")
      case True
      then show ?thesis using IdInt Cons.IH[of ids snap]
        by (simp add: result_get_id_def List.map_filter_simps)
    next
      case False
      then show ?thesis using IdInt Cons.IH[of "ids @ [n]" "dict_set snap n r"]
        by (simp add: result_get_id_def List.map_filter_simps dict_set_keys)
    qed
  qed
qed

theorem collect_results_truthy_ids_witness:
  "collect_results
      [\<lparr>listing_id = IdInt 7, listing_fields = []\<rparr>, \<lparr>listing_id = IdNull, listing_fields = []\<rparr>,
       \<lparr>listing_id = IdInt 0, listing_fields = []\<rparr>, \<lparr>listing_id = IdAbsent, listing_fields = []\<rparr>,
       \<lparr>listing_id = IdInt 9, listing_fields = []\<rparr>] ([], [])
    = ([7, 9], [(7, \<lparr>listing_id = IdInt 7, listing_fields = []\<rparr>),
                (9, \<lparr>listing_id = IdInt 9, listing_fields = []\<rparr>)])
   \<and> collect_results
      [\<lparr>listing_id = IdNull, listing_fields = []\<rparr>, \<lparr>listing_id = IdInt 0, listing_fields = []\<rparr>,
       \<lparr>listing_id = IdAbsent, listing_fields = []\<rparr>] ([3], [(3, summary 3)])
    = ([3], [(3, summary 3)])"
proof -
  have a: "collect_results
      [\<lparr>listing_id = IdInt 7, listing_fields = []\<rparr>, \<lparr>listing_id = IdNull, listing_fields = []\<rparr>,
       \<lparr>listing_id = IdInt 0, listing_fields = []\<rparr>, \<lparr>listing_id = IdAbsent, listing_fields = []\<rparr>,
       \<lparr>listing_id = IdInt 9, listing_fields = []\<rparr>] ([], [])
    = ([7, 9], [(7, \<lparr>listing_id = IdInt 7, listing_fields = []\<rparr>),
                (9, \<lparr>listing_id = IdInt 9, listing_fields = []\<rparr>)])"
    by (simp add: result_get_id_def)
  from collect_results_truthy_ids
         [of "[\<lparr>listing_id = IdNull, listing_fields = []\<rparr>, \<lparr>listing_id = IdInt 0, listing_fields = []\<rparr>,
               \<lparr>listing_id = IdAbsent, listing_fields = []\<rparr>]" "[3]" "[(3, summary 3)]"]
  have b: "collect_results
      [\<lparr>listing_id = IdNull, listing_fields = []\<rparr>, \<lparr>listing_id = IdInt 0, listing_fields = []\<rparr>,
       \<lparr>listing_id = IdAbsent, listing_fields = []\<rparr>] ([3], [(3, summary 3)])
    = ([3], [(3, summary 3)])"
    by simp
  from a b show ?thesis by simp
qed

section \<open>Discovery Worker: the page-batch scenario\<close>

text \<open>
  Called with its four parameters, the search fetch returns the listings of page 1 on
  the first attempt.
\<close>

lemma house_sale_first_page:
  "fst (scrape_search_page_with_retries PySession PyGateway (search_url ''house-sale'' 1) 1
          house_sale_world) = Inr (map summary [10, 20, 30])"
  by (simp add: scrape_search_page_with_retries_def search_attempts.simps search_max_retries_def
        session_get_def house_sale_world_def quiet_world_def house_sale_net_def page_of_def)

text \<open>
  C2. The page-batch scenario, run through \<open>process_record\<close> as it is written: the call
  of \<open>scrape_search_page_with_retries\<close> passes three arguments for four parameters, so
  the first page raises TypeError before any GET; nothing is sent, the watermark stays
  25, and the handler reports the message as failed.
\<close>

theorem house_sale_scenario_fails:
  "fst (discovery_process_record test_env house_sale_record house_sale_world) = Inl TypeError
   \<and> get_log (snd (discovery_process_record test_env house_sale_record house_sale_world)) = []
   \<and> sqs_sent (snd (discovery_process_record test_env house_sale_record house_sale_world)) = []
   \<and> get_ssm_parameter ''/house-sale''
        (snd (discovery_process_record test_env house_sale_record house_sale_world)) = Inr 25
   \<and> fst (discovery_lambda_handler test_env [house_sale_record] house_sale_world) = Inr [''m-1'']"
  by (simp add: discovery_process_record_def house_sale_record_def
        call_scrape_search_page_with_retries_def house_sale_world_def quiet_world_def
        get_ssm_parameter_def house_sale_params_def discovery_lambda_handler_def test_env_def
        env_set_def create_session_with_ip_rotation_def get_remaining_time_in_millis_def)

section \<open>Discovery Worker: new IDs and the watermark\<close>

lemma py_max_Max: "xs \<noteq> [] \<Longrightarrow> py_max xs = Inr (Max (set xs))"
proof (cases xs)
  case Nil
  then show "xs \<noteq> [] \<Longrightarrow> ?thesis" by simp
next
  case (Cons x ys)
  have "foldl max x ys = fold max ys x"
    by (simp add: foldl_conv_fold max.commute)
  moreover have "Max (set (x # ys)) = fold max ys x" by (rule Max.set_eq_fold)
  ultimately show ?thesis using Cons by (simp del: set_simps)
qed

lemma send_id_batches_ok:
  "send_id_batches e tt bs w = (Inr u, w') \<Longrightarrow>
   \<exists>new. w' = w\<lparr>sqs_sent := sqs_sent w @ new\<rparr> \<and> forwarded_ids new = concat bs"
proof (induction bs arbitrary: w)
  case Nil
  then have "w' = w\<lparr>sqs_sent := sqs_sent w @ []\<rparr> \<and> forwarded_ids [] = concat []"
    by (simp add: forwarded_ids_def)
  then show ?case by blast
next
  case (Cons b bs)
  let ?m = "\<lparr>transaction_type = Some tt, page_numbers = None, listing_ids = Some b\<rparr>"
  from Cons.prems obtain q where q: "ID_BATCH_QUEUE_URL e = Some q" and nf: "sqs_fault w ?m = None"
    by (auto simp: sqs_send_message_def split: option.splits)
  let ?s = "\<lparr>QueueUrl = q, MessageBody = ?m\<rparr>"
  let ?w1 = "w\<lparr>sqs_sent := sqs_sent w @ [?s]\<rparr>"
  have step: "send_id_batches e tt bs ?w1 = (Inr u, w')"
    using Cons.prems q nf by (simp add: sqs_send_message_def)
  from Cons.IH[OF step] obtain new where
    new: "w' = ?w1\<lparr>sqs_sent := sqs_sent ?w1 @ new\<rparr>" "forwarded_ids new = concat bs"
    by blast
  have "w' = w\<lparr>sqs_sent := sqs_sent w @ (?s # new)\<rparr>" using new(1) by simp
  moreover have "forwarded_ids (?s # new) = concat (b # bs)"
    using new(2) by (simp add: forwarded_ids_def)
  ultimately show ?case by blast
qed

lemma forward_new_ids_ok:
  assumes "0 < ID_BATCH_SIZE e" and "forward_new_ids e tt ids w = (Inr u, w')"
  shows "\<exists>new. w' = w\<lparr>sqs_sent := sqs_sent w @ new\<rparr> \<and> forwarded_ids new = ids"
proof (cases "ids = []")
  case True
  then have "w' = w\<lparr>sqs_sent := sqs_sent w @ []\<rparr> \<and> forwarded_ids [] = ids"
    using assms(2) by (simp add: forward_new_ids_def forwarded_ids_def)
  then show ?thesis by blast
next
  case False
  from chunk_list_concat[OF assms(1), of ids] obtain cs where
    cs: "chunk_list ids (ID_BATCH_SIZE e) = Inr cs" "concat cs = ids" by blast
  have "send_id_batches e tt cs w = (Inr u, w')"
    using assms(2) False cs(1) by (simp add: forward_new_ids_def)
  from send_id_batches_ok[OF this] cs(2) show ?thesis by simp
qed

lemma house_sale_collected_value: "house_sale_collected = ([10, 20, 30, 5, 40],
   [(10, summary 10), (20, summary 20), (30, summary 30), (5, summary 5), (40, summary 40)])"
  by (simp add: house_sale_collected_def result_get_id_def summary_def)
lemma chunk_30_40: "chunk_list [30, 40 :: int] 100 = Inr [[30, 40]]"
  by (simp add: chunk_list_def py_range_def range_up.simps py_slice_def slice_bound_def)
lemma house_sale_run: "store_and_publish test_env ''house-sale'' house_sale_collected house_sale_world
  = (Inr (), house_sale_world\<lparr>
       s3_objects := [\<lparr>Bucket = ''bucket'', Key = snapshot_key ''house-sale'' house_sale_world,
                       Body = Snapshot (snd house_sale_collected)\<rparr>],
       sqs_sent := [\<lparr>QueueUrl = ''id-batch-queue'',
                      MessageBody = \<lparr>transaction_type = Some ''house-sale'', page_numbers = None,
                                     listing_ids = Some [30, 40]\<rparr>\<rparr>],
       ssm := (ssm house_sale_world)(''/house-sale'' := Parameter (IntText 40))\<rparr>)"
  unfolding house_sale_collected_value
  by (simp add: store_and_publish_def put_snapshot_def s3_put_object_def publish_ids_def
        get_ssm_parameter_def forward_new_ids_def chunk_30_40 sqs_send_message_def
        update_ssm_parameter_def test_env_def house_sale_world_def quiet_world_def
        house_sale_params_def)

lemma house_sale_publish:
  "publish_ids test_env ''house-sale'' [10, 20, 30, 5, 40] house_sale_world
   = (Inr (), house_sale_world\<lparr>
       sqs_sent := [\<lparr>QueueUrl = ''id-batch-queue'',
                      MessageBody = \<lparr>transaction_type = Some ''house-sale'', page_numbers = None,
                                     listing_ids = Some [30, 40]\<rparr>\<rparr>],
       ssm := (ssm house_sale_world)(''/house-sale'' := Parameter (IntText 40))\<rparr>)"
  by (simp add: publish_ids_def get_ssm_parameter_def forward_new_ids_def chunk_30_40
        sqs_send_message_def update_ssm_parameter_def test_env_def house_sale_world_def
        quiet_world_def house_sale_params_def)

text \<open>
  Lines 121 to 143 with a watermark that is stored and reads \<open>wm\<close>, and a positive ID
  batch size: a run that completes sends messages whose IDs are, in order, the collected
  IDs strictly above \<open>wm\<close>; when \<open>collected\<close> is not empty the watermark read afterwards
  is \<open>max wm (max collected)\<close>; when it is empty the parameter store is unchanged.
\<close>

lemma publish_ids_stored_watermark:
  assumes "0 < ID_BATCH_SIZE e"
      and "get_ssm_parameter (''/'' @ tt) w = Inr wm"
      and "publish_ids e tt collected w = (Inr u, w')"
  shows "(\<exists>new. sqs_sent w' = sqs_sent w @ new \<and> forwarded_ids new = filter (\<lambda>x. wm < x) collected)
     \<and> (collected \<noteq> [] \<longrightarrow> get_ssm_parameter (''/'' @ tt) w' = Inr (max wm (Max (set collected))))
     \<and> (collected = [] \<longrightarrow> ssm w' = ssm w)"
proof (cases "collected = []")
  case True
  then have "w' = w" using assms(2,3) by (simp add: publish_ids_def)
  then show ?thesis using True by (simp add: forwarded_ids_def)
next
  case False
  let ?new_ids = "filter (\<lambda>x. wm < x) collected"
  let ?mx = "Max (set collected)"
  have mx: "py_max collected = Inr ?mx" using False by (rule py_max_Max)
  obtain r w1 where fw: "forward_new_ids e tt ?new_ids w = (r, w1)" by (cases "forward_new_ids e tt ?new_ids w")
  have r: "r = Inr ()" using assms(2,3) False mx fw
    by (cases r) (simp_all add: publish_ids_def)
  from forward_new_ids_ok[OF assms(1) fw[unfolded r]] obtain new where
    new: "w1 = w\<lparr>sqs_sent := sqs_sent w @ new\<rparr>" "forwarded_ids new = ?new_ids" by blast
  have rest: "(if wm < ?mx then update_ssm_parameter (''/'' @ tt) ?mx w1 else (Inr (), w1)) = (Inr u, w')"
    using assms(2,3) False mx fw r by (auto simp: publish_ids_def split: if_splits)
  have g1: "get_ssm_parameter (''/'' @ tt) w1 = Inr wm"
    using assms(2) new(1) by (simp add: get_ssm_parameter_def)
  show ?thesis
  proof (cases "wm < ?mx")
    case True
    then have "w' = w1\<lparr>ssm := (ssm w1)(''/'' @ tt := Parameter (IntText ?mx))\<rparr>"
      using rest by (auto simp: update_ssm_parameter_def split: option.splits)
    then show ?thesis using new True False
      by (simp add: get_ssm_parameter_def max_def)
  next
    case F: False
    then have "w' = w1" using rest by simp
    then show ?thesis using new F False g1 by (simp add: max_def)
  qed
qed

lemma house_sale_publish_values:
  "0 < ID_BATCH_SIZE test_env
   \<and> get_ssm_parameter (''/'' @ ''house-sale'') house_sale_world = Inr 25
   \<and> fst (publish_ids test_env ''house-sale'' [10, 20, 30, 5, 40] house_sale_world) = Inr ()
   \<and> forwarded_ids (sqs_sent (snd (publish_ids test_env ''house-sale'' [10, 20, 30, 5, 40] house_sale_world)))
       = [30, 40]
   \<and> get_ssm_parameter (''/'' @ ''house-sale'')
        (snd (publish_ids test_env ''house-sale'' [10, 20, 30, 5, 40] house_sale_world)) = Inr 40"
proof -
  let ?r = "publish_ids test_env ''house-sale'' [10, 20, 30, 5, 40] house_sale_world"
  have h1: "0 < ID_BATCH_SIZE test_env" by (simp add: test_env_def)
  have h2: "get_ssm_parameter (''/'' @ ''house-sale'') house_sale_world = Inr 25"
    by (simp add: get_ssm_parameter_def house_sale_world_def quiet_world_def house_sale_params_def)
  have ok: "fst ?r = Inr ()" by (simp add: house_sale_publish)
  then have h3: "?r = (Inr (), snd ?r)" by (metis prod.collapse)
  have s0: "sqs_sent house_sale_world = []" by (simp add: house_sale_world_def quiet_world_def)
  from publish_ids_stored_watermark [OF h1 h2 h3] s0
  have "forwarded_ids (sqs_sent (snd ?r)) = [30, 40]"
    and "get_ssm_parameter (''/'' @ ''house-sale'') (snd ?r) = Inr 40"
    by auto
  with h1 h2 ok show ?thesis by simp
qed

text \<open>
  C1. On the first discovery run of a category no watermark is stored, and the prior
  watermark is the logical value 0. Given the collected IDs 10, 20, 30, 5, 40 of the two
  pages, lines 121 to 143 raise NameError at the read of the watermark: no ID is forwarded
  and no watermark is stored, where the IDs above 0 were to be forwarded and the watermark
  set to 40. \<open>process_record\<close> itself stops earlier, at the call of the search fetch
  with three arguments, again with nothing forwarded and nothing stored.
\<close>

theorem first_run_forwards_nothing:
  "get_ssm_parameter ''/house-sale'' first_run_world = Inl NameError
   \<and> fst (publish_ids test_env ''house-sale'' [10, 20, 30, 5, 40] first_run_world) = Inl NameError
   \<and> sqs_sent (snd (publish_ids test_env ''house-sale'' [10, 20, 30, 5, 40] first_run_world)) = []
   \<and> ssm (snd (publish_ids test_env ''house-sale'' [10, 20, 30, 5, 40] first_run_world)) ''/house-sale''
       = ClientErr ''ParameterNotFound''
   \<and> fst (store_and_publish test_env ''house-sale'' house_sale_collected first_run_world)
       = Inl NameError
   \<and> sqs_sent (snd (store_and_publish test_env ''house-sale'' house_sale_collected first_run_world)) = []
   \<and> fst (discovery_process_record test_env house_sale_record first_run_world) = Inl TypeError
   \<and> sqs_sent (snd (discovery_process_record test_env house_sale_record first_run_world)) = []
   \<and> ssm (snd (discovery_process_record test_env house_sale_record first_run_world)) ''/house-sale''
       = ClientErr ''ParameterNotFound''"
proof -
  have g: "get_ssm_parameter ''/house-sale'' first_run_world = Inl NameError"
    by (simp add: get_ssm_parameter_def except_ClientError_def first_run_world_def quiet_world_def
          no_params_def)
  have p: "publish_ids test_env ''house-sale'' [10, 20, 30, 5, 40] first_run_world
             = (Inl NameError, first_run_world)"
    using g by (simp add: publish_ids_def)
  have s: "store_and_publish test_env ''house-sale'' house_sale_collected first_run_world
             = (Inl NameError,
                first_run_world\<lparr>s3_objects :=
                  [\<lparr>Bucket = ''bucket'', Key = snapshot_key ''house-sale'' first_run_world,
                    Body = Snapshot (snd house_sale_collected)\<rparr>]\<rparr>)"
    unfolding house_sale_collected_value
    by (simp add: store_and_publish_def put_snapshot_def s3_put_object_def publish_ids_def
          get_ssm_parameter_def except_ClientError_def test_env_def first_run_world_def
          quiet_world_def no_params_def)
  have r: "discovery_process_record test_env house_sale_record first_run_world
             = (Inl TypeError, first_run_world)"
    by (simp add: discovery_process_record_def house_sale_record_def
          call_scrape_search_page_with_retries_def)
  have e: "sqs_sent first_run_world = []"
          "ssm first_run_world ''/house-sale'' = ClientErr ''ParameterNotFound''"
    by (simp_all add: first_run_world_def quiet_world_def no_params_def)
  show ?thesis using g e by (simp add: p s r)
qed

section \<open>What each step changes in the state\<close>

lemma session_get_world: "snd (session_get url w) = w\<lparr>get_log := get_log w @ [url]\<rparr>"
  by (simp add: session_get_def)

lemma search_attempts_world:
  "\<exists>l. snd (search_attempts url p n w) = w\<lparr>get_log := l\<rparr>"
proof (induction "search_max_retries - n" arbitrary: n w)
  case 0
  then have "snd (search_attempts url p n w) = w\<lparr>get_log := get_log w\<rparr>"
    by (simp add: search_attempts.simps[of url p n w])
  then show ?case by blast
next
  case (Suc k)
  let ?w' = "w\<lparr>get_log := get_log w @ [url]\<rparr>"
  have lt: "n < search_max_retries" using Suc.hyps(2) by simp
  have "k = search_max_retries - (n + 1)" using Suc.hyps(2) by simp
  from Suc.hyps(1)[OF this, of ?w']
  obtain l where l: "snd (search_attempts url p (n + 1) ?w') = w\<lparr>get_log := l\<rparr>"
    by auto
  have here: "?w' = w\<lparr>get_log := get_log w @ [url]\<rparr>" by simp
  show ?case
  proof (cases "fst (session_get url w)")
    case NetworkError
    then have "snd (search_attempts url p n w) = w\<lparr>get_log := l\<rparr>"
      using lt l by (simp add: search_attempts.simps[of url p n w] session_get_world)
    then show ?thesis by blast
  next
    case (Response st b)
    show ?thesis
    proof (cases "st = 200")
      case True
      then have "snd (search_attempts url p n w) = w\<lparr>get_log := get_log w @ [url]\<rparr>"
        using lt Response
        by (cases b) (simp_all add: search_attempts.simps[of url p n w] session_get_world)
      then show ?thesis by blast
    next
      case False
      then have "snd (search_attempts url p n w) = w\<lparr>get_log := l\<rparr>"
        using lt l Response by (simp add: search_attempts.simps[of url p n w] session_get_world)
      then show ?thesis by blast
    qed
  qed
qed

lemma call_scrape_world:
  "\<exists>l. snd (call_scrape_search_page_with_retries args w) = w\<lparr>get_log := l\<rparr>"
proof -
  have triv: "\<exists>l. w = w\<lparr>get_log := l\<rparr>"
    by (rule exI[of _ "get_log w"]) simp
  show ?thesis
    using triv search_attempts_world
    by (auto simp: call_scrape_search_page_with_retries_def scrape_search_page_with_retries_def
             split: list.splits pyval.splits)
qed

lemma collect_pages_world:
  "\<exists>l. snd (collect_pages tt ps acc w) = w\<lparr>get_log := l\<rparr>"
proof (induction ps arbitrary: acc w)
  case Nil
  have "snd (collect_pages tt [] acc w) = w\<lparr>get_log := get_log w\<rparr>" by simp
  then show ?case by blast
next
  case (Cons p ps)
  let ?c = "call_scrape_search_page_with_retries [PySession, PyStr (search_url tt p), PyInt p] w"
  obtain r w1 where c: "?c = (r, w1)" by (cases ?c)
  from call_scrape_world[of "[PySession, PyStr (search_url tt p), PyInt p]" w] c
  obtain l1 where l1: "w1 = w\<lparr>get_log := l1\<rparr>" by auto
  show ?case
  proof (cases r)
    case (Inl e)
    then have "snd (collect_pages tt (p # ps) acc w) = w\<lparr>get_log := l1\<rparr>"
      using c l1 by simp
    then show ?thesis by blast
  next
    case (Inr rs)
    from Cons.IH[of acc w1] Cons.IH[of "collect_results rs acc" w1] l1
    obtain la lb where "snd (collect_pages tt ps acc w1) = w\<lparr>get_log := la\<rparr>"
      "snd (collect_pages tt ps (collect_results rs acc) w1) = w\<lparr>get_log := lb\<rparr>"
      by auto
    then have "snd (collect_pages tt (p # ps) acc w) = w\<lparr>get_log := la\<rparr>
               \<or> snd (collect_pages tt (p # ps) acc w) = w\<lparr>get_log := lb\<rparr>"
      using c Inr by simp
    then show ?thesis by blast
  qed
qed

lemma put_snapshot_world:
  "\<exists>new. snd (put_snapshot e tt snap w) = w\<lparr>s3_objects := s3_objects w @ new\<rparr>
         \<and> Body ` set new \<subseteq> {Snapshot snap} \<and> (snap = [] \<longrightarrow> new = [])"
proof -
  have a: "w = w\<lparr>s3_objects := s3_objects w @ []\<rparr>" by simp
  show ?thesis
  proof (cases "snd (put_snapshot e tt snap w) = w")
    case True
    then have "snd (put_snapshot e tt snap w) = w\<lparr>s3_objects := s3_objects w @ []\<rparr>
               \<and> Body ` set [] \<subseteq> {Snapshot snap} \<and> (snap = [] \<longrightarrow> [] = ([] :: s3_object list))"
      by simp
    then show ?thesis by blast
  next
    case False
    then obtain bk where bk: "S3_BUCKET_NAME e = Some bk" "snap \<noteq> []"
        "s3_fault w (snapshot_key tt w) = None"
      by (auto simp: put_snapshot_def s3_put_object_def split: if_splits option.splits)
    let ?o = "\<lparr>Bucket = bk, Key = snapshot_key tt w, Body = Snapshot snap\<rparr>"
    have "snd (put_snapshot e tt snap w) = w\<lparr>s3_objects := s3_objects w @ [?o]\<rparr>
          \<and> Body ` set [?o] \<subseteq> {Snapshot snap} \<and> (snap = [] \<longrightarrow> [?o] = [])"
      using bk by (simp add: put_snapshot_def s3_put_object_def)
    then show ?thesis by blast
  qed
qed

lemma send_id_batches_world:
  "\<exists>new. snd (send_id_batches e tt bs w) = w\<lparr>sqs_sent := sqs_sent w @ new\<rparr>"
proof (induction bs arbitrary: w)
  case Nil
  have "snd (send_id_batches e tt [] w) = w\<lparr>sqs_sent := sqs_sent w @ []\<rparr>" by simp
  then show ?case by blast
next
  case (Cons b bs)
  let ?m = "\<lparr>transaction_type = Some tt, page_numbers = None, listing_ids = Some b\<rparr>"
  let ?c = "sqs_send_message (ID_BATCH_QUEUE_URL e) ?m w"
  show ?case
  proof (cases "fst ?c")
    case (Inl err)
    then have "snd ?c = w" by (auto simp: sqs_send_message_def split: option.splits)
    then have "snd (send_id_batches e tt (b # bs) w) = w\<lparr>sqs_sent := sqs_sent w @ []\<rparr>"
      using Inl by (cases ?c) simp
    then show ?thesis by blast
  next
    case (Inr u)
    then obtain s where s: "snd ?c = w\<lparr>sqs_sent := sqs_sent w @ [s]\<rparr>"
      by (auto simp: sqs_send_message_def split: option.splits)
    from Cons.IH[of "w\<lparr>sqs_sent := sqs_sent w @ [s]\<rparr>"] obtain new where
      "snd (send_id_batches e tt bs (w\<lparr>sqs_sent := sqs_sent w @ [s]\<rparr>))
         = w\<lparr>sqs_sent := sqs_sent w @ [s]\<rparr>\<lparr>sqs_sent := sqs_sent (w\<lparr>sqs_sent := sqs_sent w @ [s]\<rparr>) @ new\<rparr>"
      by blast
    then have "snd (send_id_batches e tt (b # bs) w) = w\<lparr>sqs_sent := sqs_sent w @ (s # new)\<rparr>"
      using Inr s by (cases ?c) simp
    then show ?thesis by blast
  qed
qed

lemma forward_new_ids_world:
  "\<exists>new. snd (forward_new_ids e tt ids w) = w\<lparr>sqs_sent := sqs_sent w @ new\<rparr>"
proof -
  have a: "\<exists>new. w = w\<lparr>sqs_sent := sqs_sent w @ new\<rparr>"
    by (rule exI[of _ "[]"]) simp
  show ?thesis using a send_id_batches_world
    by (auto simp: forward_new_ids_def split: sum.splits)
qed

lemma update_ssm_parameter_cases:
  "snd (update_ssm_parameter n v w) = w
   \<or> snd (update_ssm_parameter n v w) = w\<lparr>ssm := (ssm w)(n := Parameter (IntText v))\<rparr>"
  by (simp add: update_ssm_parameter_def split: option.splits)

lemma publish_ids_never_lowers:
  assumes "get_ssm_parameter n w = Inr v"
  shows "\<exists>v'. get_ssm_parameter n (snd (publish_ids e tt ids w)) = Inr v' \<and> v \<le> v'"
proof (cases "get_ssm_parameter (''/'' @ tt) w")
  case (Inl err)
  then show ?thesis using assms by (simp add: publish_ids_def)
next
  case (Inr last)
  show ?thesis
  proof (cases "ids = []")
    case True
    then show ?thesis using assms Inr by (simp add: publish_ids_def)
  next
    case False
    then obtain mx where mx: "py_max ids = Inr mx" by (cases ids) auto
    let ?f = "forward_new_ids e tt (filter (\<lambda>x. last < x) ids) w"
    obtain r w1 where f: "?f = (r, w1)" by (cases ?f)
    from forward_new_ids_world[of e tt "filter (\<lambda>x. last < x) ids" w] f
    obtain new where w1: "w1 = w\<lparr>sqs_sent := sqs_sent w @ new\<rparr>" by auto
    have g1: "get_ssm_parameter n w1 = Inr v" using assms w1 by (simp add: get_ssm_parameter_def)
    show ?thesis
    proof (cases "(\<exists>u. r = Inr u) \<and> last < mx")
      case F: False
      then have "snd (publish_ids e tt ids w) = w1"
        using Inr False mx f by (cases r) (auto simp: publish_ids_def)
      then show ?thesis using g1 by simp
    next
      case True
      then have p: "snd (publish_ids e tt ids w) = snd (update_ssm_parameter (''/'' @ tt) mx w1)"
        using Inr False mx f by (auto simp: publish_ids_def)
      from update_ssm_parameter_cases[of "''/'' @ tt" mx w1] show ?thesis
      proof
        assume "snd (update_ssm_parameter (''/'' @ tt) mx w1) = w1"
        then show ?thesis using p g1 by simp
      next
        assume u: "snd (update_ssm_parameter (''/'' @ tt) mx w1)
                     = w1\<lparr>ssm := (ssm w1)(''/'' @ tt := Parameter (IntText mx))\<rparr>"
        show ?thesis
        proof (cases "n = ''/'' @ tt")
          case True
          then have "v = last" using assms Inr by simp
          then show ?thesis using p u True \<open>(\<exists>u. r = Inr u) \<and> last < mx\<close>
            by (simp add: get_ssm_parameter_def)
        next
          case False
          then show ?thesis using p u g1 by (simp add: get_ssm_parameter_def)
        qed
      qed
    qed
  qed
qed

section \<open>The watermark only advances\<close>

lemma store_and_publish_never_lowers:
  assumes "get_ssm_parameter n w = Inr v"
  shows "\<exists>v'. get_ssm_parameter n (snd (store_and_publish e tt acc w)) = Inr v' \<and> v \<le> v'"
proof -
  obtain ids snap where acc: "acc = (ids, snap)" by (cases acc)
  obtain r w1 where p: "put_snapshot e tt snap w = (r, w1)" by (cases "put_snapshot e tt snap w")
  from put_snapshot_world[of e tt snap w] p obtain new where
    w1: "w1 = w\<lparr>s3_objects := s3_objects w @ new\<rparr>" by auto
  have g1: "get_ssm_parameter n w1 = Inr v" using assms w1 by (simp add: get_ssm_parameter_def)
  show ?thesis
  proof (cases r)
    case (Inl err)
    then show ?thesis using acc p g1 by (simp add: store_and_publish_def)
  next
    case (Inr u)
    then have "snd (store_and_publish e tt acc w) = snd (publish_ids e tt ids w1)"
      using acc p by (simp add: store_and_publish_def)
    then show ?thesis using publish_ids_never_lowers[OF g1, of e tt ids] by simp
  qed
qed

lemma discovery_process_record_never_lowers:
  assumes "get_ssm_parameter n w = Inr v"
  shows "\<exists>v'. get_ssm_parameter n (snd (discovery_process_record e r w)) = Inr v' \<and> v \<le> v'"
proof -
  have same: "\<exists>v'. get_ssm_parameter n w = Inr v' \<and> v \<le> v'" using assms by simp
  show ?thesis
  proof (cases "\<exists>m tt ps. body r = Some m \<and> transaction_type m = Some tt
                  \<and> page_numbers m = Some ps \<and> ps \<noteq> []")
    case False
    then have "snd (discovery_process_record e r w) = w"
      by (auto simp: discovery_process_record_def split: option.splits)
    then show ?thesis using same by simp
  next
    case True
    then obtain m tt ps where m: "body r = Some m" "transaction_type m = Some tt"
      "page_numbers m = Some ps" "ps \<noteq> []" by blast
    obtain c w1 where c: "collect_pages tt ps ([], []) w = (c, w1)"
      by (cases "collect_pages tt ps ([], []) w")
    from collect_pages_world[of tt ps "([], [])" w] c obtain l where
      w1: "w1 = w\<lparr>get_log := l\<rparr>" by auto
    have g1: "get_ssm_parameter n w1 = Inr v" using assms w1 by (simp add: get_ssm_parameter_def)
    show ?thesis
    proof (cases c)
      case (Inl err)
      then have "snd (discovery_process_record e r w) = w1"
        using m c by (simp add: discovery_process_record_def)
      then show ?thesis using g1 by simp
    next
      case (Inr acc)
      then have "snd (discovery_process_record e r w) = snd (store_and_publish e tt acc w1)"
        using m c by (simp add: discovery_process_record_def)
      then show ?thesis using store_and_publish_never_lowers[OF g1, of e tt acc] by simp
    qed
  qed
qed

lemma publish_ids_settled:
  assumes "get_ssm_parameter (''/'' @ tt) w = Inr wm" and "\<forall>x \<in> set ids. x \<le> wm"
  shows "publish_ids e tt ids w = (Inr (), w)"
proof (cases "ids = []")
  case True
  then show ?thesis using assms(1) by (simp add: publish_ids_def)
next
  case False
  have mx: "py_max ids = Inr (Max (set ids))" using False by (rule py_max_Max)
  have "Max (set ids) \<le> wm" using assms(2) False by simp
  then have le: "\<not> wm < Max (set ids)" by (simp only: not_less)
  have none: "filter (\<lambda>x. wm < x) ids = []" using assms(2) by (auto simp: filter_empty_conv)
  show ?thesis using assms(1) False mx none
    by (simp add: publish_ids_def forward_new_ids_def le)
qed

lemma publish_ids_reaches_max:
  assumes "publish_ids e tt ids w = (Inr u, w')"
  shows "\<exists>wm'. get_ssm_parameter (''/'' @ tt) w' = Inr wm' \<and> (\<forall>x \<in> set ids. x \<le> wm')
           \<and> s3_objects w' = s3_objects w \<and> s3_fault w' = s3_fault w"
proof -
  obtain last where last: "get_ssm_parameter (''/'' @ tt) w = Inr last"
    using assms by (cases "get_ssm_parameter (''/'' @ tt) w") (simp_all add: publish_ids_def)
  show ?thesis
  proof (cases "ids = []")
    case True
    then have "w' = w" using assms last by (simp add: publish_ids_def)
    then show ?thesis using last True by simp
  next
    case False
    have mx: "py_max ids = Inr (Max (set ids))" using False by (rule py_max_Max)
    let ?mx = "Max (set ids)"
    let ?f = "forward_new_ids e tt (filter (\<lambda>x. last < x) ids) w"
    obtain r w1 where f: "?f = (r, w1)" by (cases ?f)
    from forward_new_ids_world[of e tt "filter (\<lambda>x. last < x) ids" w] f
    obtain new where w1: "w1 = w\<lparr>sqs_sent := sqs_sent w @ new\<rparr>" by auto
    have r: "\<exists>u. r = Inr u" using assms last False mx f by (cases r) (simp_all add: publish_ids_def)
    have rest: "(if last < ?mx then update_ssm_parameter (''/'' @ tt) ?mx w1 else (Inr (), w1)) = (Inr u, w')"
      using assms last False mx f r by (auto simp: publish_ids_def split: if_splits)
    have bound: "\<forall>x \<in> set ids. x \<le> ?mx" by simp
    show ?thesis
    proof (cases "last < ?mx")
      case True
      then have "w' = w1\<lparr>ssm := (ssm w1)(''/'' @ tt := Parameter (IntText ?mx))\<rparr>"
        using rest by (auto simp: update_ssm_parameter_def split: option.splits)
      then have "get_ssm_parameter (''/'' @ tt) w' = Inr ?mx \<and> s3_objects w' = s3_objects w
                  \<and> s3_fault w' = s3_fault w"
        using w1 by (simp add: get_ssm_parameter_def)
      then show ?thesis using bound by blast
    next
      case F: False
      then have "w' = w1" using rest by simp
      then have "get_ssm_parameter (''/'' @ tt) w' = Inr last \<and> s3_objects w' = s3_objects w
                  \<and> s3_fault w' = s3_fault w"
        using w1 last by (simp add: get_ssm_parameter_def)
      moreover have "\<forall>x \<in> set ids. x \<le> last" using F bound by (meson order_trans not_less)
      ultimately show ?thesis by blast
    qed
  qed
qed

lemma store_and_publish_again:
  assumes "store_and_publish e tt acc w = (Inr u, w1)"
  shows "ssm (snd (store_and_publish e tt acc w1)) = ssm w1
       \<and> sqs_sent (snd (store_and_publish e tt acc w1)) = sqs_sent w1
       \<and> Body ` set (s3_objects (snd (store_and_publish e tt acc w1))) = Body ` set (s3_objects w1)"
proof -
  obtain ids snap where acc: "acc = (ids, snap)" by (cases acc)
  obtain r wa where p: "put_snapshot e tt snap w = (r, wa)" by (cases "put_snapshot e tt snap w")
  have r: "\<exists>u. r = Inr u" using assms acc p by (cases r) (simp_all add: store_and_publish_def)
  then have pub: "publish_ids e tt ids wa = (Inr u, w1)"
    using assms acc p by (auto simp: store_and_publish_def)
  from publish_ids_reaches_max[OF pub] obtain wm' where
    wm': "get_ssm_parameter (''/'' @ tt) w1 = Inr wm'" "\<forall>x \<in> set ids. x \<le> wm'"
         "s3_objects w1 = s3_objects wa" by blast
  have first: "snap \<noteq> [] \<longrightarrow> Snapshot snap \<in> Body ` set (s3_objects w1)"
  proof
    assume "snap \<noteq> []"
    then obtain bk where "wa = w\<lparr>s3_objects := s3_objects w @ [\<lparr>Bucket = bk, Key = snapshot_key tt w, Body = Snapshot snap\<rparr>]\<rparr>"
      using p r by (auto simp: put_snapshot_def s3_put_object_def split: option.splits)
    then show "Snapshot snap \<in> Body ` set (s3_objects w1)" using wm'(3) by simp
  qed
  obtain r2 wb where p2: "put_snapshot e tt snap w1 = (r2, wb)" by (cases "put_snapshot e tt snap w1")
  from put_snapshot_world[of e tt snap w1] p2 obtain new where
    wb: "wb = w1\<lparr>s3_objects := s3_objects w1 @ new\<rparr>" "Body ` set new \<subseteq> {Snapshot snap}"
        "snap = [] \<longrightarrow> new = []" by auto
  have g: "get_ssm_parameter (''/'' @ tt) wb = Inr wm'" using wm'(1) wb(1)
    by (simp add: get_ssm_parameter_def)
  have "snd (store_and_publish e tt acc w1) = wb"
  proof (cases r2)
    case (Inl err)
    then show ?thesis using acc p2 by (simp add: store_and_publish_def)
  next
    case (Inr u2)
    then show ?thesis using acc p2 publish_ids_settled[OF g wm'(2), of e]
      by (simp add: store_and_publish_def)
  qed
  moreover have "Body ` set (s3_objects wb) = Body ` set (s3_objects w1)"
    using wb first by (cases "snap = []") auto
  ultimately show ?thesis using wb(1) by simp
qed

text \<open>
  C6. The stored watermark never decreases: whatever \<open>process_record\<close> does with a
  message, and whatever lines 108 to 143 do with collected data, a watermark that read
  \<open>v\<close> before reads some \<open>v' \<ge> v\<close> afterwards, for every category. When the same
  collected data is processed a second time after a run that completed, the parameter
  store and the ID-batch queue stay as they are and no blob with a new content is written.
\<close>

theorem watermark_never_regresses:
  "(get_ssm_parameter n w = Inr v \<longrightarrow>
      (\<exists>v'. get_ssm_parameter n (snd (discovery_process_record e r w)) = Inr v' \<and> v \<le> v'))
   \<and> (get_ssm_parameter n w = Inr v \<longrightarrow>
      (\<exists>v'. get_ssm_parameter n (snd (store_and_publish e tt acc w)) = Inr v' \<and> v \<le> v'))
   \<and> (store_and_publish e tt acc w = (Inr u, w1) \<longrightarrow>
        ssm (snd (store_and_publish e tt acc w1)) = ssm w1
      \<and> sqs_sent (snd (store_and_publish e tt acc w1)) = sqs_sent w1
      \<and> Body ` set (s3_objects (snd (store_and_publish e tt acc w1))) = Body ` set (s3_objects w1))"
  using discovery_process_record_never_lowers[of n w v e r]
        store_and_publish_never_lowers[of n w v e tt acc]
        store_and_publish_again[of e tt acc w u w1]
  by blast

theorem watermark_never_regresses_witness:
  "get_ssm_parameter ''/house-sale'' house_sale_world = Inr 25
   \<and> store_and_publish test_env ''house-sale'' house_sale_collected house_sale_world
       = (Inr (), snd (store_and_publish test_env ''house-sale'' house_sale_collected house_sale_world))
   \<and> get_ssm_parameter ''/house-sale''
        (snd (store_and_publish test_env ''house-sale'' house_sale_collected house_sale_world)) = Inr 40
   \<and> sqs_sent (snd (store_and_publish test_env ''house-sale'' house_sale_collected
        (snd (store_and_publish test_env ''house-sale'' house_sale_collected house_sale_world))))
       = sqs_sent (snd (store_and_publish test_env ''house-sale'' house_sale_collected house_sale_world))
   \<and> ssm (snd (store_and_publish test_env ''house-sale'' house_sale_collected
        (snd (store_and_publish test_env ''house-sale'' house_sale_collected house_sale_world))))
       = ssm (snd (store_and_publish test_env ''house-sale'' house_sale_collected house_sale_world))"
proof -
  let ?run = "store_and_publish test_env ''house-sale'' house_sale_collected"
  have h1: "get_ssm_parameter ''/house-sale'' house_sale_world = Inr 25"
    by (simp add: get_ssm_parameter_def house_sale_world_def quiet_world_def house_sale_params_def)
  have ok: "fst (?run house_sale_world) = Inr ()" by (simp add: house_sale_run)
  then have h2: "?run house_sale_world = (Inr (), snd (?run house_sale_world))"
    by (metis prod.collapse)
  have after: "get_ssm_parameter ''/house-sale'' (snd (?run house_sale_world)) = Inr 40"
    by (simp add: house_sale_run get_ssm_parameter_def)
  from watermark_never_regresses
         [of "''/house-sale''" house_sale_world 25 test_env house_sale_record "''house-sale''"
             house_sale_collected "()" "snd (?run house_sale_world)"] h1 h2
  have "ssm (snd (?run (snd (?run house_sale_world)))) = ssm (snd (?run house_sale_world))"
    and "sqs_sent (snd (?run (snd (?run house_sale_world)))) = sqs_sent (snd (?run house_sale_world))"
    by blast+
  with h1 h2 after show ?thesis by simp
qed

section \<open>Extractor Worker\<close>

lemma py_str_ids: "py_str 101 = ''101''" "py_str 102 = ''102''" "py_str 103 = ''103''"
  by (simp_all add: py_str_def nat_digits.simps digit_char_def)

lemma detail_attempts_first:
  "detail_attempts url 0 w =
     (case net w url (count_list (get_log w) url) of
        Response st b \<Rightarrow>
          if st = 200 then (case b of Parsed d \<Rightarrow> (Inr (classified d), w\<lparr>get_log := get_log w @ [url]\<rparr>)
                                    | Unparseable \<Rightarrow> (Inr None, w\<lparr>get_log := get_log w @ [url]\<rparr>))
          else if st = 404 then (Inr None, w\<lparr>get_log := get_log w @ [url]\<rparr>)
          else detail_attempts url 1 (w\<lparr>get_log := get_log w @ [url]\<rparr>)
      | NetworkError \<Rightarrow> detail_attempts url 1 (w\<lparr>get_log := get_log w @ [url]\<rparr>))"
  by (simp add: detail_attempts.simps[of url 0 w] detail_max_retries_def session_get_def
           split: outcome.splits payload.splits)

lemma id_batch_scrape:
  assumes "net w = id_batch_net" and "get_log w = []"
  shows "scrape_ids [101, 102, 103] [] w
   = ([(''101'', [(''price'', ''250000'')]), (''103'', [(''price'', ''310000'')])],
      w\<lparr>get_log := [detail_url 101, detail_url 102, detail_url 103]\<rparr>)"
  using assms
  by (simp add: scrape_ad_details_def detail_attempts_first id_batch_net_def detail_of_def
        detail_url_def py_str_ids)

lemma id_batch_run:
  assumes "net w = id_batch_net" and "get_log w = []" and "s3_fault w = (\<lambda>k. None)"
  shows "extractor_process_record test_env id_batch_record w
   = (Inr (), w\<lparr>get_log := [detail_url 101, detail_url 102, detail_url 103],
         s3_objects := s3_objects w @ [\<lparr>Bucket = ''bucket'', Key = detail_key ''house-sale'' w,
                         Body = Details [(''101'', [(''price'', ''250000'')]),
                                         (''103'', [(''price'', ''310000'')])]\<rparr>]\<rparr>)"
  using assms(3)
  by (simp add: extractor_process_record_def id_batch_record_def id_batch_scrape[OF assms(1,2)]
        s3_put_object_def test_env_def detail_key_def del: scrape_ids.simps)

lemma detail_attempts_world:
  "\<exists>l. snd (detail_attempts url n w) = w\<lparr>get_log := l\<rparr>"
proof (induction "detail_max_retries - n" arbitrary: n w)
  case 0
  then have "snd (detail_attempts url n w) = w\<lparr>get_log := get_log w\<rparr>"
    by (simp add: detail_attempts.simps[of url n w])
  then show ?case by blast
next
  case (Suc k)
  let ?w' = "w\<lparr>get_log := get_log w @ [url]\<rparr>"
  have lt: "n < detail_max_retries" using Suc.hyps(2) by simp
  have "k = detail_max_retries - (n + 1)" using Suc.hyps(2) by simp
  from Suc.hyps(1)[OF this, of ?w']
  obtain l where l: "snd (detail_attempts url (n + 1) ?w') = w\<lparr>get_log := l\<rparr>"
    by auto
  show ?case
  proof (cases "fst (session_get url w)")
    case NetworkError
    then have "snd (detail_attempts url n w) = w\<lparr>get_log := l\<rparr>"
      using lt l by (simp add: detail_attempts.simps[of url n w] session_get_world)
    then show ?thesis by blast
  next
    case (Response st b)
    show ?thesis
    proof (cases "st = 200 \<or> st = 404")
      case True
      then have "snd (detail_attempts url n w) = w\<lparr>get_log := get_log w @ [url]\<rparr>"
        using lt Response
        by (cases b) (auto simp: detail_attempts.simps[of url n w] session_get_world)
      then show ?thesis by blast
    next
      case False
      then have "snd (detail_attempts url n w) = w\<lparr>get_log := l\<rparr>"
        using lt l Response by (simp add: detail_attempts.simps[of url n w] session_get_world)
      then show ?thesis by blast
    qed
  qed
qed

lemma scrape_ids_step:
  "scrape_ids (i # rest) acc w =
     (case fst (scrape_ad_details PySession i w) of
        Inr (Some d) \<Rightarrow>
          if d \<noteq> [] then scrape_ids rest (dict_set acc (py_str i) d) (snd (scrape_ad_details PySession i w))
          else scrape_ids rest acc (snd (scrape_ad_details PySession i w))
      | _ \<Rightarrow> scrape_ids rest acc (snd (scrape_ad_details PySession i w)))"
  by (cases "scrape_ad_details PySession i w") (simp split: sum.splits option.splits)

lemma scrape_ids_world:
  "\<exists>l. snd (scrape_ids ids acc w) = w\<lparr>get_log := l\<rparr>"
proof (induction ids arbitrary: acc w)
  case Nil
  have "snd (scrape_ids [] acc w) = w\<lparr>get_log := get_log w\<rparr>" by simp
  then show ?case by blast
next
  case (Cons i ids)
  let ?w1 = "snd (scrape_ad_details PySession i w)"
  from detail_attempts_world[of "detail_url i" 0 w] obtain l1 where
    l1: "?w1 = w\<lparr>get_log := l1\<rparr>" by (auto simp: scrape_ad_details_def)
  have "\<exists>acc'. scrape_ids (i # ids) acc w = scrape_ids ids acc' ?w1"
    by (subst scrape_ids_step) (auto split: sum.splits option.splits)
  then obtain acc' where a: "scrape_ids (i # ids) acc w = scrape_ids ids acc' ?w1" by blast
  from Cons.IH[of acc' ?w1] obtain l where "snd (scrape_ids ids acc' ?w1) = ?w1\<lparr>get_log := l\<rparr>"
    by blast
  then have "snd (scrape_ids (i # ids) acc w) = w\<lparr>get_log := l\<rparr>"
    using a l1 by simp
  then show ?case by blast
qed

lemma extractor_process_record_completes:
  assumes "body r = Some m" and "S3_BUCKET_NAME e = Some bk" and "\<forall>k. s3_fault w k = None"
  shows "fst (extractor_process_record e r w) = Inr ()"
proof -
  let ?tt = "case transaction_type m of None \<Rightarrow> ''unknown'' | Some t \<Rightarrow> t"
  let ?ids = "case listing_ids m of None \<Rightarrow> [] | Some ids \<Rightarrow> ids"
  obtain res w1 where s: "scrape_ids ?ids [] w = (res, w1)" by (cases "scrape_ids ?ids [] w")
  from scrape_ids_world[of ?ids "[]" w] s obtain l where "w1 = w\<lparr>get_log := l\<rparr>" by auto
  then have nf: "s3_fault w1 (detail_key ?tt w1) = None" using assms(3) by simp
  show ?thesis using assms(1,2) s nf
    by (simp add: extractor_process_record_def s3_put_object_def)
qed

lemma detail_attempts_not_found:
  assumes "attempt < detail_max_retries"
      and "net w url (count_list (get_log w) url) = Response 404 b"
  shows "detail_attempts url attempt w = (Inr None, w\<lparr>get_log := get_log w @ [url]\<rparr>)"
  using assms by (simp add: detail_attempts.simps[of url attempt w] session_get_def)



lemma scrape_ids_skips:
  assumes "scrape_ad_details PySession i w = (r, w')" and "r = Inr None \<or> (\<exists>err. r = Inl err)"
  shows "scrape_ids (i # rest) acc w = scrape_ids rest acc w'"
  using assms by auto

lemma broken_world_exhausts:
  "scrape_ad_details PySession 102 broken_world
   = (Inl detail_failed, broken_world\<lparr>get_log := [detail_url 102, detail_url 102, detail_url 102]\<rparr>)"
  by (simp add: scrape_ad_details_def detail_attempts.simps detail_max_retries_def session_get_def
        broken_world_def quiet_world_def)

lemma id_batch_handler:
  "extractor_lambda_handler test_env [id_batch_record] id_batch_world
   = (Inr [], id_batch_world
        \<lparr>clock_reads := Suc 0,
         get_log := [detail_url 101, detail_url 102, detail_url 103],
         s3_objects := [\<lparr>Bucket = ''bucket'',
                         Key = detail_key ''house-sale'' id_batch_world,
                         Body = Details [(''101'', [(''price'', ''250000'')]),
                                         (''103'', [(''price'', ''310000'')])]\<rparr>]\<rparr>)"
proof -
  let ?w1 = "id_batch_world\<lparr>clock_reads := Suc 0\<rparr>"
  have c: "get_remaining_time_in_millis id_batch_world = (60000, ?w1)"
    by (simp add: get_remaining_time_in_millis_def id_batch_world_def quiet_world_def)
  have p: "extractor_process_record test_env id_batch_record ?w1
     = (Inr (), ?w1\<lparr>get_log := [detail_url 101, detail_url 102, detail_url 103],
         s3_objects := s3_objects ?w1 @ [\<lparr>Bucket = ''bucket'', Key = detail_key ''house-sale'' ?w1,
                         Body = Details [(''101'', [(''price'', ''250000'')]),
                                         (''103'', [(''price'', ''310000'')])]\<rparr>]\<rparr>)"
    by (rule id_batch_run) (simp_all add: id_batch_world_def quiet_world_def)
  have k: "detail_key ''house-sale'' ?w1 = detail_key ''house-sale'' id_batch_world"
    by (simp add: detail_key_def)
  have s0: "s3_objects ?w1 = []" by (simp add: id_batch_world_def quiet_world_def)
  have "extractor_records test_env [id_batch_record] [] id_batch_world
        = ([], ?w1\<lparr>get_log := [detail_url 101, detail_url 102, detail_url 103],
         s3_objects := [\<lparr>Bucket = ''bucket'',
                         Key = detail_key ''house-sale'' id_batch_world,
                         Body = Details [(''101'', [(''price'', ''250000'')]),
                                         (''103'', [(''price'', ''310000'')])]\<rparr>]\<rparr>)"
    using c p k s0 by simp
  moreover have "env_set (S3_BUCKET_NAME test_env)" by (simp add: test_env_def env_set_def)
  moreover have "create_session_with_ip_rotation id_batch_world = Inr ()"
    by (simp add: create_session_with_ip_rotation_def id_batch_world_def quiet_world_def)
  ultimately show ?thesis
    by (simp add: extractor_lambda_handler_def)
qed

text \<open>
  C7. The ID-batch scenario (IDs 101, 102, 103, with 404 for 102) ends with an empty
  failure report and one detail blob whose keys are 101 and 103. In general, an ID whose
  fetch answers 404, and an ID whose fetch raises after its retries, is skipped and the
  loop goes on with the next ID and the results collected so far; a message whose body
  parses never fails unless the blob write does.
\<close>

theorem extractor_skips_only_the_id:
  "fst (extractor_lambda_handler test_env [id_batch_record] id_batch_world) = Inr []
   \<and> map Body (s3_objects (snd (extractor_lambda_handler test_env [id_batch_record] id_batch_world)))
       = [Details [(''101'', [(''price'', ''250000'')]), (''103'', [(''price'', ''310000'')])]]
   \<and> (net w (detail_url i) (count_list (get_log w) (detail_url i)) = Response 404 b \<longrightarrow>
        scrape_ids (i # rest) acc w = scrape_ids rest acc (w\<lparr>get_log := get_log w @ [detail_url i]\<rparr>))
   \<and> (fst (scrape_ad_details PySession i w) = Inl err \<longrightarrow>
        scrape_ids (i # rest) acc w = scrape_ids rest acc (snd (scrape_ad_details PySession i w)))
   \<and> (body r = Some m \<and> S3_BUCKET_NAME e = Some bk \<and> (\<forall>k. s3_fault w k = None) \<longrightarrow>
        fst (extractor_process_record e r w) = Inr ())"
proof -
  have a: "fst (extractor_lambda_handler test_env [id_batch_record] id_batch_world) = Inr []"
    by (simp add: id_batch_handler)
  have b: "map Body (s3_objects (snd (extractor_lambda_handler test_env [id_batch_record] id_batch_world)))
       = [Details [(''101'', [(''price'', ''250000'')]), (''103'', [(''price'', ''310000'')])]]"
    by (simp add: id_batch_handler)
  have c: "net w (detail_url i) (count_list (get_log w) (detail_url i)) = Response 404 b \<longrightarrow>
        scrape_ids (i # rest) acc w = scrape_ids rest acc (w\<lparr>get_log := get_log w @ [detail_url i]\<rparr>)"
  proof
    assume h: "net w (detail_url i) (count_list (get_log w) (detail_url i)) = Response 404 b"
    have "scrape_ad_details PySession i w = (Inr None, w\<lparr>get_log := get_log w @ [detail_url i]\<rparr>)"
      unfolding scrape_ad_details_def
      by (rule detail_attempts_not_found[OF _ h]) (simp add: detail_max_retries_def)
    then show "scrape_ids (i # rest) acc w = scrape_ids rest acc (w\<lparr>get_log := get_log w @ [detail_url i]\<rparr>)"
      by (rule scrape_ids_skips) simp
  qed
  have d: "fst (scrape_ad_details PySession i w) = Inl err \<longrightarrow>
        scrape_ids (i # rest) acc w = scrape_ids rest acc (snd (scrape_ad_details PySession i w))"
  proof
    assume "fst (scrape_ad_details PySession i w) = Inl err"
    then have "scrape_ad_details PySession i w = (Inl err, snd (scrape_ad_details PySession i w))"
      by (metis prod.collapse)
    then show "scrape_ids (i # rest) acc w = scrape_ids rest acc (snd (scrape_ad_details PySession i w))"
      by (rule scrape_ids_skips) simp
  qed
  have e: "body r = Some m \<and> S3_BUCKET_NAME e = Some bk \<and> (\<forall>k. s3_fault w k = None) \<longrightarrow>
        fst (extractor_process_record e r w) = Inr ()"
    using extractor_process_record_completes[of r m e bk w] by blast
  from a b c d e show ?thesis by blast
qed

theorem extractor_skips_only_the_id_witness:
  "net id_batch_world (detail_url 102) (count_list (get_log id_batch_world) (detail_url 102))
     = Response 404 Unparseable
   \<and> scrape_ids [102, 103] [] id_batch_world
     = scrape_ids [103] [] (id_batch_world\<lparr>get_log := get_log id_batch_world @ [detail_url 102]\<rparr>)
   \<and> fst (scrape_ad_details PySession 102 broken_world) = Inl detail_failed
   \<and> scrape_ids [102, 103] [] broken_world
     = scrape_ids [103] [] (snd (scrape_ad_details PySession 102 broken_world))
   \<and> body id_batch_record \<noteq> None \<and> S3_BUCKET_NAME test_env = Some ''bucket''
   \<and> fst (extractor_process_record test_env id_batch_record id_batch_world) = Inr ()"
proof -
  have h1: "net id_batch_world (detail_url 102) (count_list (get_log id_batch_world) (detail_url 102))
     = Response 404 Unparseable"
    by (simp add: id_batch_world_def quiet_world_def id_batch_net_def detail_url_def py_str_ids)
  have h2: "fst (scrape_ad_details PySession 102 broken_world) = Inl detail_failed"
    by (simp add: broken_world_exhausts)
  have h3: "body id_batch_record = Some \<lparr>transaction_type = Some ''house-sale'', page_numbers = None,
                   listing_ids = Some [101, 102, 103]\<rparr>"
    by (simp add: id_batch_record_def)
  have h4: "S3_BUCKET_NAME test_env = Some ''bucket''" by (simp add: test_env_def)
  have h5: "\<forall>k. s3_fault id_batch_world k = None" by (simp add: id_batch_world_def quiet_world_def)
  from extractor_skips_only_the_id [of id_batch_world 102 Unparseable "[103]" "[]" _ id_batch_record _ test_env "''bucket''"]
       h1 h3 h4 h5
  have c1: "scrape_ids [102, 103] [] id_batch_world
     = scrape_ids [103] [] (id_batch_world\<lparr>get_log := get_log id_batch_world @ [detail_url 102]\<rparr>)"
    and c3: "fst (extractor_process_record test_env id_batch_record id_batch_world) = Inr ()"
    by blast+
  from extractor_skips_only_the_id [of broken_world 102 Unparseable "[103]" "[]" detail_failed] h2
  have c2: "scrape_ids [102, 103] [] broken_world
     = scrape_ids [103] [] (snd (scrape_ad_details PySession 102 broken_world))"
    by blast
  from h1 h2 h3 h4 c1 c2 c3 show ?thesis by simp
qed

section \<open>A response that is not JSON\<close>




section \<open>The near-timeout guard\<close>

lemma discovery_records_append:
  "discovery_records e (xs @ ys) f w =
     discovery_records e ys (fst (discovery_records e xs f w)) (snd (discovery_records e xs f w))"
  by (induction xs arbitrary: f w)
     (auto simp: get_remaining_time_in_millis_def split: prod.splits sum.splits)

lemma extractor_records_append:
  "extractor_records e (xs @ ys) f w =
     extractor_records e ys (fst (extractor_records e xs f w)) (snd (extractor_records e xs f w))"
  by (induction xs arbitrary: f w)
     (auto simp: get_remaining_time_in_millis_def split: prod.splits sum.splits)

lemma discovery_records_keeps: "set f \<subseteq> set (fst (discovery_records e rs f w))"
proof (induction rs arbitrary: f w)
  case Nil
  show ?case by simp
next
  case (Cons r rs)
  show ?case
    using Cons.IH[of "f @ [messageId r]"] Cons.IH[of f]
    by (auto simp: get_remaining_time_in_millis_def split: prod.splits sum.splits)
qed

lemma extractor_records_keeps: "set f \<subseteq> set (fst (extractor_records e rs f w))"
proof (induction rs arbitrary: f w)
  case Nil
  show ?case by simp
next
  case (Cons r rs)
  show ?case
    using Cons.IH[of "f @ [messageId r]"] Cons.IH[of f]
    by (auto simp: get_remaining_time_in_millis_def split: prod.splits sum.splits)
qed

lemma discovery_guard_run:
  assumes "discovery_records e pre [] w = (f, wM)" and "clock wM (clock_reads wM) < 10000"
  shows "discovery_records e (pre @ [M]) [] w = (f @ [messageId M], wM\<lparr>clock_reads := Suc (clock_reads wM)\<rparr>)"
    and "messageId M \<in> set (fst (discovery_records e (pre @ M # post) [] w))"
proof -
  show "discovery_records e (pre @ [M]) [] w = (f @ [messageId M], wM\<lparr>clock_reads := Suc (clock_reads wM)\<rparr>)"
    using assms by (simp add: discovery_records_append get_remaining_time_in_millis_def)
  have "discovery_records e (pre @ M # post) [] w
        = discovery_records e post (f @ [messageId M]) (wM\<lparr>clock_reads := Suc (clock_reads wM)\<rparr>)"
    using assms by (simp add: discovery_records_append get_remaining_time_in_millis_def)
  then show "messageId M \<in> set (fst (discovery_records e (pre @ M # post) [] w))"
    using discovery_records_keeps[of "f @ [messageId M]" e post "wM\<lparr>clock_reads := Suc (clock_reads wM)\<rparr>"]
    by auto
qed

lemma extractor_guard_run:
  assumes "extractor_records e pre [] w = (f, wM)" and "clock wM (clock_reads wM) < 10000"
  shows "extractor_records e (pre @ [M]) [] w = (f @ [messageId M], wM\<lparr>clock_reads := Suc (clock_reads wM)\<rparr>)"
    and "messageId M \<in> set (fst (extractor_records e (pre @ M # post) [] w))"
proof -
  show "extractor_records e (pre @ [M]) [] w = (f @ [messageId M], wM\<lparr>clock_reads := Suc (clock_reads wM)\<rparr>)"
    using assms by (simp add: extractor_records_append get_remaining_time_in_millis_def)
  have "extractor_records e (pre @ M # post) [] w
        = extractor_records e post (f @ [messageId M]) (wM\<lparr>clock_reads := Suc (clock_reads wM)\<rparr>)"
    using assms by (simp add: extractor_records_append get_remaining_time_in_millis_def)
  then show "messageId M \<in> set (fst (extractor_records e (pre @ M # post) [] w))"
    using extractor_records_keeps[of "f @ [messageId M]" e post "wM\<lparr>clock_reads := Suc (clock_reads wM)\<rparr>"]
    by auto
qed

lemma discovery_lambda_handler_report:
  assumes "env_set (ID_BATCH_QUEUE_URL e)" and "env_set (S3_BUCKET_NAME e)" and "gateway_ok w"
  shows "discovery_lambda_handler e rs w
         = (Inr (fst (discovery_records e rs [] w)), snd (discovery_records e rs [] w))"
  using assms
  by (simp add: discovery_lambda_handler_def create_session_with_ip_rotation_def split: prod.splits)

lemma extractor_lambda_handler_report:
  assumes "env_set (S3_BUCKET_NAME e)" and "gateway_ok w"
  shows "extractor_lambda_handler e rs w
         = (Inr (fst (extractor_records e rs [] w)), snd (extractor_records e rs [] w))"
  using assms
  by (simp add: extractor_lambda_handler_def create_session_with_ip_rotation_def split: prod.splits)

text \<open>
  C9. In both workers: let \<open>wM\<close> be the state in which the handler, having dealt with the
  messages \<open>pre\<close>, comes to the message \<open>M\<close>. If the remaining time read there is below
  10000 ms, the identifier of \<open>M\<close> is in the failure report the handler returns, and
  dealing with \<open>M\<close> changes nothing but the number of clock readings: the log of GETs is
  the same before and after, so no fetch is attempted for \<open>M\<close>.
\<close>

theorem near_timeout_guard:
  "(env_set (ID_BATCH_QUEUE_URL e) \<and> env_set (S3_BUCKET_NAME e) \<and> gateway_ok w
      \<and> discovery_records e pre [] w = (f, wM) \<and> clock wM (clock_reads wM) < 10000 \<longrightarrow>
      (\<exists>report w'. discovery_lambda_handler e (pre @ M # post) w = (Inr report, w')
                   \<and> messageId M \<in> set report)
      \<and> discovery_records e (pre @ [M]) [] w
          = (f @ [messageId M], wM\<lparr>clock_reads := Suc (clock_reads wM)\<rparr>)
      \<and> get_log (snd (discovery_records e (pre @ [M]) [] w)) = get_log wM)
   \<and> (env_set (S3_BUCKET_NAME e) \<and> gateway_ok w
      \<and> extractor_records e pre [] w = (f, wM) \<and> clock wM (clock_reads wM) < 10000 \<longrightarrow>
      (\<exists>report w'. extractor_lambda_handler e (pre @ M # post) w = (Inr report, w')
                   \<and> messageId M \<in> set report)
      \<and> extractor_records e (pre @ [M]) [] w
          = (f @ [messageId M], wM\<lparr>clock_reads := Suc (clock_reads wM)\<rparr>)
      \<and> get_log (snd (extractor_records e (pre @ [M]) [] w)) = get_log wM)"
proof (intro conjI impI)
  assume h: "env_set (ID_BATCH_QUEUE_URL e) \<and> env_set (S3_BUCKET_NAME e) \<and> gateway_ok w
      \<and> discovery_records e pre [] w = (f, wM) \<and> clock wM (clock_reads wM) < 10000"
  then have r: "discovery_records e pre [] w = (f, wM)" and c: "clock wM (clock_reads wM) < 10000"
    by simp_all
  show "\<exists>report w'. discovery_lambda_handler e (pre @ M # post) w = (Inr report, w')
                   \<and> messageId M \<in> set report"
    using discovery_lambda_handler_report[of e w "pre @ M # post"] h
          discovery_guard_run(2)[OF r c, of M post]
    by simp
  show s: "discovery_records e (pre @ [M]) [] w
          = (f @ [messageId M], wM\<lparr>clock_reads := Suc (clock_reads wM)\<rparr>)"
    by (rule discovery_guard_run(1)[OF r c])
  show "get_log (snd (discovery_records e (pre @ [M]) [] w)) = get_log wM"
    by (simp add: s)
next
  assume h: "env_set (S3_BUCKET_NAME e) \<and> gateway_ok w
      \<and> extractor_records e pre [] w = (f, wM) \<and> clock wM (clock_reads wM) < 10000"
  then have r: "extractor_records e pre [] w = (f, wM)" and c: "clock wM (clock_reads wM) < 10000"
    by simp_all
  show "\<exists>report w'. extractor_lambda_handler e (pre @ M # post) w = (Inr report, w')
                   \<and> messageId M \<in> set report"
    using extractor_lambda_handler_report[of e w "pre @ M # post"] h
          extractor_guard_run(2)[OF r c, of M post]
    by simp
  show s: "extractor_records e (pre @ [M]) [] w
          = (f @ [messageId M], wM\<lparr>clock_reads := Suc (clock_reads wM)\<rparr>)"
    by (rule extractor_guard_run(1)[OF r c])
  show "get_log (snd (extractor_records e (pre @ [M]) [] w)) = get_log wM"
    by (simp add: s)
qed

lemma closing_first_message:
  "extractor_records test_env [id_batch_record] [] closing_world
   = ([], closing_world
        \<lparr>clock_reads := Suc 0,
         get_log := [detail_url 101, detail_url 102, detail_url 103],
         s3_objects := [\<lparr>Bucket = ''bucket'',
                         Key = detail_key ''house-sale'' closing_world,
                         Body = Details [(''101'', [(''price'', ''250000'')]),
                                         (''103'', [(''price'', ''310000'')])]\<rparr>]\<rparr>)"
proof -
  let ?w1 = "closing_world\<lparr>clock_reads := Suc 0\<rparr>"
  have c: "get_remaining_time_in_millis closing_world = (60000, ?w1)"
    by (simp add: get_remaining_time_in_millis_def closing_world_def quiet_world_def)
  have p: "extractor_process_record test_env id_batch_record ?w1
     = (Inr (), ?w1\<lparr>get_log := [detail_url 101, detail_url 102, detail_url 103],
         s3_objects := s3_objects ?w1 @ [\<lparr>Bucket = ''bucket'', Key = detail_key ''house-sale'' ?w1,
                         Body = Details [(''101'', [(''price'', ''250000'')]),
                                         (''103'', [(''price'', ''310000'')])]\<rparr>]\<rparr>)"
    by (rule id_batch_run) (simp_all add: closing_world_def quiet_world_def)
  have k: "detail_key ''house-sale'' ?w1 = detail_key ''house-sale'' closing_world"
    by (simp add: detail_key_def)
  have s0: "s3_objects ?w1 = []" by (simp add: closing_world_def quiet_world_def)
  show ?thesis using c p k s0 by simp
qed

theorem near_timeout_guard_witness:
  "env_set (ID_BATCH_QUEUE_URL test_env) \<and> env_set (S3_BUCKET_NAME test_env)
   \<and> gateway_ok late_world \<and> gateway_ok closing_world
   \<and> clock late_world (clock_reads late_world) < 10000
   \<and> (\<exists>report w'. discovery_lambda_handler test_env ([] @ house_sale_record # []) late_world
                      = (Inr report, w') \<and> messageId house_sale_record \<in> set report)
   \<and> get_log (snd (discovery_records test_env ([] @ [house_sale_record]) [] late_world)) = []
   \<and> get_log (snd (extractor_records test_env [id_batch_record] [] closing_world))
       = [detail_url 101, detail_url 102, detail_url 103]
   \<and> (\<exists>report w'. extractor_lambda_handler test_env ([id_batch_record] @ late_record # []) closing_world
                      = (Inr report, w') \<and> messageId late_record \<in> set report)
   \<and> get_log (snd (extractor_records test_env ([id_batch_record] @ [late_record]) [] closing_world))
       = [detail_url 101, detail_url 102, detail_url 103]"
proof -
  let ?wM = "closing_world
        \<lparr>clock_reads := Suc 0,
         get_log := [detail_url 101, detail_url 102, detail_url 103],
         s3_objects := [\<lparr>Bucket = ''bucket'',
                         Key = detail_key ''house-sale'' closing_world,
                         Body = Details [(''101'', [(''price'', ''250000'')]),
                                         (''103'', [(''price'', ''310000'')])]\<rparr>]\<rparr>"
  have e1: "env_set (ID_BATCH_QUEUE_URL test_env)" and e2: "env_set (S3_BUCKET_NAME test_env)"
    by (simp_all add: test_env_def env_set_def)
  have g1: "gateway_ok late_world" and g2: "gateway_ok closing_world"
    by (simp_all add: late_world_def closing_world_def quiet_world_def)
  have d0: "discovery_records test_env [] [] late_world = ([], late_world)" by simp
  have c1: "clock late_world (clock_reads late_world) < 10000"
    by (simp add: late_world_def quiet_world_def)
  have l0: "get_log late_world = []" by (simp add: late_world_def quiet_world_def)
  have c2: "clock ?wM (clock_reads ?wM) < 10000"
    by (simp add: closing_world_def quiet_world_def)
  from near_timeout_guard [of test_env late_world "[]" "[]" late_world house_sale_record "[]"]
       e1 e2 g1 d0 c1
  have a: "\<exists>report w'. discovery_lambda_handler test_env ([] @ house_sale_record # []) late_world
                      = (Inr report, w') \<and> messageId house_sale_record \<in> set report"
    and b: "get_log (snd (discovery_records test_env ([] @ [house_sale_record]) [] late_world))
              = get_log late_world"
    by blast+
  from near_timeout_guard [of test_env closing_world "[id_batch_record]" "[]" ?wM late_record "[]"]
       e2 g2 closing_first_message c2
  have c: "\<exists>report w'. extractor_lambda_handler test_env ([id_batch_record] @ late_record # []) closing_world
                      = (Inr report, w') \<and> messageId late_record \<in> set report"
    and d: "get_log (snd (extractor_records test_env ([id_batch_record] @ [late_record]) [] closing_world))
              = get_log ?wM"
    by blast+
  have f: "get_log (snd (extractor_records test_env [id_batch_record] [] closing_world))
       = [detail_url 101, detail_url 102, detail_url 103]"
    by (simp only: closing_first_message) simp
  from e1 e2 g1 g2 c1 a b c d f l0 show ?thesis by simp
qed

section \<open>Dispatcher: the number of pages\<close>

lemma first_page_loop_done:
  "first_page_loop url 200 b w = Some (Inr b, w)"
  by (simp add: first_page_loop.simps)

lemma first_page_loop_retry:
  assumes "status_code \<noteq> 200" and "gateway_ok w"
      and "net w url (count_list (get_log w) url) = Response st' b'"
  shows "first_page_loop url status_code b w
         = first_page_loop url st' b'
             (w\<lparr>warnings := warnings w @ [FirstPageFailed status_code],
                get_log := get_log w @ [url]\<rparr>)"
  using assms
  by (subst first_page_loop.simps)
     (simp add: log_warning_def create_session_with_ip_rotation_def session_get_def)

lemma first_page_loop_reaches:
  assumes "gateway_ok w"
      and "\<forall>j<k. \<exists>st b. net w url (count_list (get_log w) url + j) = Response st b \<and> st \<noteq> 200"
      and "net w url (count_list (get_log w) url + k) = Response 200 p"
      and "status_code \<noteq> 200"
  shows "\<exists>w' ws. first_page_loop url status_code b w = Some (Inr p, w')
           \<and> warnings w' = warnings w @ ws \<and> TotalItemsFallback \<notin> set ws"
  using assms
proof (induction k arbitrary: w status_code b)
  case 0
  let ?w2 = "w\<lparr>warnings := warnings w @ [FirstPageFailed status_code], get_log := get_log w @ [url]\<rparr>"
  have n: "net w url (count_list (get_log w) url) = Response 200 p" using "0.prems"(3) by simp
  have "first_page_loop url status_code b w = Some (Inr p, ?w2)"
    using first_page_loop_retry[OF "0.prems"(4) "0.prems"(1) n] by (simp add: first_page_loop_done)
  moreover have "warnings ?w2 = warnings w @ [FirstPageFailed status_code]
                 \<and> TotalItemsFallback \<notin> set [FirstPageFailed status_code]" by simp
  ultimately show ?case by blast
next
  case (Suc k)
  let ?w2 = "w\<lparr>warnings := warnings w @ [FirstPageFailed status_code], get_log := get_log w @ [url]\<rparr>"
  have "0 < Suc k" by simp
  with Suc.prems(2) have "\<exists>st b. net w url (count_list (get_log w) url + 0) = Response st b \<and> st \<noteq> 200"
    by blast
  then obtain st' b' where
    n: "net w url (count_list (get_log w) url) = Response st' b'" and ne: "st' \<noteq> 200"
    by auto
  have step: "first_page_loop url status_code b w = first_page_loop url st' b' ?w2"
    by (rule first_page_loop_retry[OF Suc.prems(4) Suc.prems(1) n])
  have g2: "gateway_ok ?w2" using Suc.prems(1) by simp
  have c2: "count_list (get_log ?w2) url = Suc (count_list (get_log w) url)" by simp
  have a2: "\<forall>j<k. \<exists>st b. net ?w2 url (count_list (get_log ?w2) url + j) = Response st b \<and> st \<noteq> 200"
  proof (intro allI impI)
    fix j assume "j < k"
    then have "Suc j < Suc k" by simp
    with Suc.prems(2) obtain st b where
      "net w url (count_list (get_log w) url + Suc j) = Response st b \<and> st \<noteq> 200" by blast
    then show "\<exists>st b. net ?w2 url (count_list (get_log ?w2) url + j) = Response st b \<and> st \<noteq> 200"
      by (simp add: c2)
  qed
  have b2: "net ?w2 url (count_list (get_log ?w2) url + k) = Response 200 p"
    using Suc.prems(3) by (simp add: c2)
  from Suc.IH[OF g2 a2 b2 ne, of b'] obtain w' ws where
    r: "first_page_loop url st' b' ?w2 = Some (Inr p, w')" "warnings w' = warnings ?w2 @ ws"
       "TotalItemsFallback \<notin> set ws" by blast
  have "first_page_loop url status_code b w = Some (Inr p, w')
        \<and> warnings w' = warnings w @ (FirstPageFailed status_code # ws)
        \<and> TotalItemsFallback \<notin> set (FirstPageFailed status_code # ws)"
    using r step by simp
  then show ?case by blast
qed

lemma first_page_reached:
  assumes "gateway_ok w"
      and "\<forall>j<k. \<exists>st b. net w url (count_list (get_log w) url + j) = Response st b \<and> st \<noteq> 200"
      and "net w url (count_list (get_log w) url + k) = Response 200 p"
  shows "\<exists>st b w' ws. fst (session_get url w) = Response st b
           \<and> first_page_loop url st b (snd (session_get url w)) = Some (Inr p, w')
           \<and> warnings w' = warnings w @ ws \<and> TotalItemsFallback \<notin> set ws"
proof (cases k)
  case 0
  let ?w1 = "snd (session_get url w)"
  have "fst (session_get url w) = Response 200 p" using assms(3) 0 by (simp add: session_get_def)
  moreover have "first_page_loop url 200 p ?w1 = Some (Inr p, ?w1)" by (rule first_page_loop_done)
  moreover have "warnings ?w1 = warnings w @ [] \<and> TotalItemsFallback \<notin> set []"
    by (simp add: session_get_def)
  ultimately show ?thesis by blast
next
  case (Suc k')
  let ?w1 = "w\<lparr>get_log := get_log w @ [url]\<rparr>"
  have "0 < k" using Suc by simp
  with assms(2) have "\<exists>st b. net w url (count_list (get_log w) url + 0) = Response st b \<and> st \<noteq> 200"
    by blast
  then obtain st b where
    n: "net w url (count_list (get_log w) url) = Response st b" and ne: "st \<noteq> 200"
    by auto
  have c1: "count_list (get_log ?w1) url = Suc (count_list (get_log w) url)" by simp
  have g1: "gateway_ok ?w1" using assms(1) by simp
  have a1: "\<forall>j<k'. \<exists>st b. net ?w1 url (count_list (get_log ?w1) url + j) = Response st b \<and> st \<noteq> 200"
  proof (intro allI impI)
    fix j assume "j < k'"
    then have "Suc j < k" using Suc by simp
    with assms(2) obtain st b where
      "net w url (count_list (get_log w) url + Suc j) = Response st b \<and> st \<noteq> 200" by blast
    then show "\<exists>st b. net ?w1 url (count_list (get_log ?w1) url + j) = Response st b \<and> st \<noteq> 200"
      by (simp add: c1)
  qed
  have b1: "net ?w1 url (count_list (get_log ?w1) url + k') = Response 200 p"
    using assms(3) Suc by (simp add: c1)
  from first_page_loop_reaches[OF g1 a1 b1 ne, of b] obtain w' ws where
    r: "first_page_loop url st b ?w1 = Some (Inr p, w')" "warnings w' = warnings ?w1 @ ws"
       "TotalItemsFallback \<notin> set ws" by blast
  have "fst (session_get url w) = Response st b
        \<and> first_page_loop url st b (snd (session_get url w)) = Some (Inr p, w')
        \<and> warnings w' = warnings w @ ws \<and> TotalItemsFallback \<notin> set ws"
    using n r by (simp add: session_get_def)
  then show ?thesis by blast
qed

text \<open>
  C8. Let the first 200 response to the page-1 request come after \<open>k\<close> responses with
  another status, with the gateway available, and let its body parse to \<open>data\<close>. Then
  \<open>get_total_pages\<close> returns; when \<open>data\<close> has the field \<open>totalItems = t\<close> the result is
  \<open>t div ITEMS_PER_PAGE + 1\<close> and no fallback warning is logged; when the field is absent
  the result is \<open>9969 div ITEMS_PER_PAGE + 1\<close> and the last warning logged is the fallback.
\<close>

theorem get_total_pages_value:
  assumes "gateway_ok w"
      and "\<forall>j<k. \<exists>st b. net w (first_page_url tt) (count_list (get_log w) (first_page_url tt) + j)
                            = Response st b \<and> st \<noteq> 200"
      and "net w (first_page_url tt) (count_list (get_log w) (first_page_url tt) + k)
             = Response 200 (Parsed data)"
  shows "(\<forall>t. totalItems data = Some t \<longrightarrow>
            (\<exists>w' ws. get_total_pages session gateway tt w = Some (Inr (t div ITEMS_PER_PAGE + 1), w')
                  \<and> warnings w' = warnings w @ ws \<and> TotalItemsFallback \<notin> set ws))
       \<and> (totalItems data = None \<longrightarrow>
            (\<exists>w' ws. get_total_pages session gateway tt w = Some (Inr (9969 div ITEMS_PER_PAGE + 1), w')
                  \<and> warnings w' = warnings w @ ws @ [TotalItemsFallback]))"
proof -
  from first_page_reached[OF assms] obtain st b w1 ws where
    r: "fst (session_get (first_page_url tt) w) = Response st b"
       "first_page_loop (first_page_url tt) st b (snd (session_get (first_page_url tt) w))
          = Some (Inr (Parsed data), w1)"
       "warnings w1 = warnings w @ ws" "TotalItemsFallback \<notin> set ws"
    by blast
  show ?thesis
  proof (intro conjI allI impI)
    fix t assume t: "totalItems data = Some t"
    have "get_total_pages session gateway tt w = Some (Inr (t div ITEMS_PER_PAGE + 1), w1)"
      using r(1,2) t by (simp add: get_total_pages_def)
    then show "\<exists>w' ws. get_total_pages session gateway tt w = Some (Inr (t div ITEMS_PER_PAGE + 1), w')
                  \<and> warnings w' = warnings w @ ws \<and> TotalItemsFallback \<notin> set ws"
      using r(3,4) by blast
  next
    assume n: "totalItems data = None"
    have "get_total_pages session gateway tt w
            = Some (Inr (9969 div ITEMS_PER_PAGE + 1), log_warning TotalItemsFallback w1)"
      using r(1,2) n by (simp add: get_total_pages_def)
    moreover have "warnings (log_warning TotalItemsFallback w1) = warnings w @ ws @ [TotalItemsFallback]"
      using r(3) by (simp add: log_warning_def)
    ultimately show "\<exists>w' ws. get_total_pages session gateway tt w
                      = Some (Inr (9969 div ITEMS_PER_PAGE + 1), w')
                  \<and> warnings w' = warnings w @ ws @ [TotalItemsFallback]"
      by blast
  qed
qed

theorem get_total_pages_value_witness:
  "gateway_ok (dispatch_world counted_net) \<and> gateway_ok (dispatch_world flaky_net)
   \<and> net (dispatch_world counted_net) (first_page_url ''maison/a-vendre'')
        (count_list (get_log (dispatch_world counted_net)) (first_page_url ''maison/a-vendre'') + 0)
       = Response 200 (Parsed counted_doc)
   \<and> net (dispatch_world flaky_net) (first_page_url ''maison/a-vendre'')
        (count_list (get_log (dispatch_world flaky_net)) (first_page_url ''maison/a-vendre'') + 2)
       = Response 200 (Parsed uncounted_doc)
   \<and> (\<exists>w' ws. get_total_pages PySession PyGateway ''maison/a-vendre'' (dispatch_world counted_net)
                  = Some (Inr 42, w') \<and> warnings w' = ws \<and> TotalItemsFallback \<notin> set ws)
   \<and> (\<exists>w' ws. get_total_pages PySession PyGateway ''maison/a-vendre'' (dispatch_world flaky_net)
                  = Some (Inr 333, w') \<and> warnings w' = ws @ [TotalItemsFallback])"
proof -
  let ?u = "first_page_url ''maison/a-vendre''"
  have g1: "gateway_ok (dispatch_world counted_net)" and g2: "gateway_ok (dispatch_world flaky_net)"
    by (simp_all add: dispatch_world_def)
  have a1: "\<forall>j<(0::nat). \<exists>st b. net (dispatch_world counted_net) ?u
               (count_list (get_log (dispatch_world counted_net)) ?u + j) = Response st b \<and> st \<noteq> 200"
    by simp
  have b1: "net (dispatch_world counted_net) ?u
               (count_list (get_log (dispatch_world counted_net)) ?u + 0) = Response 200 (Parsed counted_doc)"
    by (simp add: dispatch_world_def counted_net_def)
  have a2: "\<forall>j<(2::nat). \<exists>st b. net (dispatch_world flaky_net) ?u
               (count_list (get_log (dispatch_world flaky_net)) ?u + j) = Response st b \<and> st \<noteq> 200"
    by (simp add: dispatch_world_def flaky_net_def)
  have b2: "net (dispatch_world flaky_net) ?u
               (count_list (get_log (dispatch_world flaky_net)) ?u + 2) = Response 200 (Parsed uncounted_doc)"
    by (simp add: dispatch_world_def flaky_net_def)
  have t1: "totalItems counted_doc = Some 1234" by (simp add: counted_doc_def)
  have t2: "totalItems uncounted_doc = None" by (simp add: uncounted_doc_def)
  have w0: "warnings (dispatch_world counted_net) = []" "warnings (dispatch_world flaky_net) = []"
    by (simp_all add: dispatch_world_def)
  from get_total_pages_value [OF g1 a1 b1, of PySession PyGateway] t1 w0
  have c1: "\<exists>w' ws. get_total_pages PySession PyGateway ''maison/a-vendre'' (dispatch_world counted_net)
                  = Some (Inr 42, w') \<and> warnings w' = ws \<and> TotalItemsFallback \<notin> set ws"
    by (simp add: ITEMS_PER_PAGE_def)
  from get_total_pages_value [OF g2 a2 b2, of PySession PyGateway] t2 w0
  have c2: "\<exists>w' ws. get_total_pages PySession PyGateway ''maison/a-vendre'' (dispatch_world flaky_net)
                  = Some (Inr 333, w') \<and> warnings w' = ws @ [TotalItemsFallback]"
    by (simp add: ITEMS_PER_PAGE_def)
  from g1 g2 b1 b2 c1 c2 show ?thesis by blast
qed

end
